theory Spec2Isabelle
  imports Main "HOL-Library.Sublist" "HOL-Library.Multiset"
begin

section \<open>JavaScript strings\<close>

text \<open>
  Strings are character lists. The model covers ASCII text: \<open>toLowerCase\<close> maps the
  letters A to Z, the regular-expression class \<open>\s\<close> is the six ASCII white-space
  characters and \<open>\d\<close> is 0 to 9.
\<close>

definition js_startsWith :: "string \<Rightarrow> string \<Rightarrow> bool" where
  "js_startsWith s p = (take (length p) s = p)"

definition js_endsWith :: "string \<Rightarrow> string \<Rightarrow> bool" where
  "js_endsWith s p = (length p \<le> length s \<and> drop (length s - length p) s = p)"

fun js_includes :: "string \<Rightarrow> string \<Rightarrow> bool" where
  "js_includes [] sub = (sub = [])"
| "js_includes (c # cs) sub = (js_startsWith (c # cs) sub \<or> js_includes cs sub)"

text \<open>
  \<open>s.split(sep)\<close>: \<open>split_from sep cur s\<close> scans \<open>s\<close> from the left with the piece read
  so far in \<open>cur\<close> and cuts at every occurrence of \<open>sep\<close>, which is skipped.
\<close>

function split_from :: "string \<Rightarrow> string \<Rightarrow> string \<Rightarrow> string list" where
  "split_from sep cur [] = [cur]"
| "split_from sep cur (c # cs) =
     (if sep \<noteq> [] \<and> js_startsWith (c # cs) sep
      then cur # split_from sep [] (drop (length sep) (c # cs))
      else split_from sep (cur @ [c]) cs)"
  by pat_completeness auto
termination
  by (relation "measure (\<lambda>(sep, cur, s). length s)") auto

definition js_split :: "string \<Rightarrow> string \<Rightarrow> string list" where
  "js_split s sep = (if sep = [] then map (\<lambda>c. [c]) s else split_from sep [] s)"

text \<open>\<open>s.replace(pat, rep)\<close> with a string pattern replaces the first occurrence only.\<close>

fun js_replace :: "string \<Rightarrow> string \<Rightarrow> string \<Rightarrow> string" where
  "js_replace [] pat rep = (if pat = [] then rep else [])"
| "js_replace (c # cs) pat rep =
     (if js_startsWith (c # cs) pat then rep @ drop (length pat) (c # cs)
      else c # js_replace cs pat rep)"

text \<open>\<open>s.replace(/\\/g, '/')\<close>: every backslash becomes a slash.\<close>

definition slashes :: "string \<Rightarrow> string" where
  "slashes s = map (\<lambda>c. if c = CHR 0x5C then CHR ''/'' else c) s"

definition toLowerChar :: "char \<Rightarrow> char" where
  "toLowerChar c =
     (case map_of (zip ''ABCDEFGHIJKLMNOPQRSTUVWXYZ'' ''abcdefghijklmnopqrstuvwxyz'') c of
        Some l \<Rightarrow> l
      | None \<Rightarrow> c)"

definition toLowerCase :: "string \<Rightarrow> string" where
  "toLowerCase s = map toLowerChar s"

definition isDigit :: "char \<Rightarrow> bool" where
  "isDigit c = (c \<in> set ''0123456789'')"

definition isSpace :: "char \<Rightarrow> bool" where
  "isSpace c = (c \<in> set [CHR 0x09, CHR 0x0A, CHR 0x0B, CHR 0x0C, CHR 0x0D, CHR '' ''])"

text \<open>The items of an array joined by a separator (\<open>Array.prototype.join\<close>).\<close>

fun js_join :: "string \<Rightarrow> string list \<Rightarrow> string" where
  "js_join sep [] = []"
| "js_join sep [x] = x"
| "js_join sep (x # y # ys) = x @ sep @ js_join sep (y # ys)"

text \<open>Decimal digits of a natural number.\<close>

fun digits10 :: "nat \<Rightarrow> string" where
  "digits10 n =
     (if n < 10 then [''0123456789'' ! n]
      else digits10 (n div 10) @ [''0123456789'' ! (n mod 10)])"

declare digits10.simps [simp del]

section \<open>The metadata script: formatFileSize\<close>

text \<open>
  \<open>Math.floor(Math.log(bytes) / Math.log(k))\<close> is modelled by the exact integer
  logarithm and \<open>Math.round(bytes / Math.pow(k, i) * 100)\<close> by exact rounding (half up);
  the floating-point quotient of the source agrees with them wherever it is exact, in
  particular when \<open>bytes = k\<close>, where it divides a number by itself.
\<close>

fun floor_log :: "nat \<Rightarrow> nat \<Rightarrow> nat" where
  "floor_log k n = (if k < 2 \<or> n < k then 0 else Suc (floor_log k (n div k)))"

declare floor_log.simps [simp del]

definition sizes :: "string list" where
  "sizes = [''Bytes'', ''KB'', ''MB'', ''GB'']"

text \<open>
  The string JavaScript prints for the number \<open>q / 100\<close>: the integer part, then at most
  two decimals without trailing zeros.
\<close>

definition show_hundredths :: "nat \<Rightarrow> string" where
  "show_hundredths q =
     digits10 (q div 100) @
     (let r = q mod 100 in
      if r = 0 then []
      else if r mod 10 = 0 then ''.'' @ digits10 (r div 10)
      else ''.'' @ digits10 (r div 10) @ digits10 (r mod 10))"

definition formatFileSize :: "nat \<Rightarrow> string" where
  "formatFileSize bytes =
     (if bytes = 0 then ''0 Bytes''
      else
        let k = 1024;
            i = floor_log k bytes;
            q = (200 * bytes + k ^ i) div (2 * k ^ i)
        in show_hundredths q @ '' '' @
           (if i < length sizes then sizes ! i else ''undefined''))"

section \<open>The metadata script: the catalog and the file system\<close>

text \<open>
  The catalog \<open>data\<close> read from \<open>notes-data.json\<close>: semesters, their branches, their
  subjects and their materials, with the fields the script reads or writes.
\<close>

record material =
  title :: string
  description :: string
  path :: string
  type_m :: string
  size_m :: string
  uploadDate :: string
  downloadUrl :: string
  keywords_m :: "string list"

record subject =
  subject_name :: string
  materials :: "material list"

record branch =
  branch_id :: string
  subjects :: "subject list"

record semester =
  semester_id :: int
  branches :: "branch list"

record catalog =
  semesters :: "semester list"

text \<open>
  What \<open>fs.statSync\<close> returns for a file: its size in bytes and its modification time,
  kept as the string \<open>mtime.toISOString()\<close> gives.
\<close>

record stats =
  st_size :: nat
  st_mtime :: string

text \<open>
  The tree below the notes directory as \<open>readdirSync\<close> and \<open>statSync\<close> show it: a
  file, a directory with its entries in listing order, an entry whose \<open>statSync\<close>
  throws, and a directory whose \<open>readdirSync\<close> throws.
\<close>

datatype node =
    File stats
  | Dir "(string \<times> node) list"
  | StatFails
  | ReaddirFails

datatype exn = StatError "string list" | ReaddirError "string list" | WriteError

text \<open>
  The environment of a run. A path is the list of its segments: \<open>root_parts\<close> are the
  segments of the project root (the parent of \<open>__dirname\<close>) as
  \<open>split(path.sep)\<close> gives them, and a file below it is written by its segments from
  there, \<open>data\<close>, \<open>notes\<close>, ... . \<open>join_root s\<close> is
  \<open>path.join(__dirname, '..', s)\<close> and \<open>statSync\<close> answers for the path string of a
  material (\<open>None\<close> when it throws).
\<close>

record env =
  root_parts :: "string list"
  notes_tree :: node
  join_root :: "string \<Rightarrow> string"
  statSync :: "string \<Rightarrow> stats option"
  write_fails :: bool

datatype event = Log string | WriteFile catalog

record state =
  data :: catalog
  out :: "event list"

datatype outcome = Done state | Aborted exn "event list"

definition console_log :: "string \<Rightarrow> state \<Rightarrow> state" where
  "console_log msg st = st\<lparr>out := out st @ [Log msg]\<rparr>"

section \<open>The metadata script: generateKeywords\<close>

definition subject_abbreviation :: "string \<Rightarrow> string list" where
  "subject_abbreviation subjectName =
     (let s = toLowerCase subjectName in
      if js_includes s ''computer network'' then [''cn'']
      else if js_includes s ''research methodology'' then [''rm'']
      else if js_includes s ''sepm'' then [''sepm'']
      else if js_includes s ''theory of computation'' then [''toc'']
      else if js_includes s ''dbms'' then [''dbms'']
      else if js_includes s ''ada'' then [''ada'']
      else [])"

text \<open>
  The first match of a pattern anywhere in a string: \<open>at\<close> tries the pattern at the
  start of the text it is given, and the search moves one character right each time it
  fails, down to the empty rest.
\<close>

fun first_match :: "(string \<Rightarrow> string option) \<Rightarrow> string \<Rightarrow> string option" where
  "first_match at [] = at []"
| "first_match at (c # cs) =
     (case at (c # cs) of Some g \<Rightarrow> Some g | None \<Rightarrow> first_match at cs)"

text \<open>
  The tail \<open>\s*(\d+|[ivx]+)\<close> of the module pattern: white space is skipped, then a
  run of digits is taken, or else a run of the letters i, v, x. Giving white space back
  cannot help, the next character being white space then.
\<close>

definition number_group :: "string \<Rightarrow> string option" where
  "number_group s =
     (let r = dropWhile isSpace s in
      if takeWhile isDigit r \<noteq> [] then Some (takeWhile isDigit r)
      else if takeWhile (\<lambda>c. c \<in> set ''ivx'') r \<noteq> [] then Some (takeWhile (\<lambda>c. c \<in> set ''ivx'') r)
      else None)"

text \<open>\<open>/(mod|module)\s*(\d+|[ivx]+)/i\<close> at the start of a lower-case text: group 2.\<close>

definition mod_at :: "string \<Rightarrow> string option" where
  "mod_at s =
     (if js_startsWith s ''mod'' then
        (case number_group (drop 3 s) of
           Some g \<Rightarrow> Some g
         | None \<Rightarrow> if js_startsWith s ''module'' then number_group (drop 6 s) else None)
      else None)"

text \<open>\<open>/unit\s*(\d+)/i\<close> at the start of a lower-case text: group 1.\<close>

definition unit_at :: "string \<Rightarrow> string option" where
  "unit_at s =
     (if js_startsWith s ''unit'' then
        (let r = dropWhile isSpace (drop 4 s) in
         if takeWhile isDigit r \<noteq> [] then Some (takeWhile isDigit r) else None)
      else None)"

definition generateKeywords :: "string \<Rightarrow> string \<Rightarrow> string list" where
  "generateKeywords filename subjectName =
     (let name = js_replace (toLowerCase filename) ''.pdf'' '''';
          keywords =
            subject_abbreviation subjectName @
            (if js_includes name ''mod'' \<or> js_includes name ''module'' then
               (case first_match mod_at name of Some g \<Rightarrow> [''mod '' @ g] | None \<Rightarrow> [])
             else []) @
            (if js_includes name ''unit'' then
               (case first_match unit_at name of Some g \<Rightarrow> [''unit '' @ g] | None \<Rightarrow> [])
             else []) @
            (if js_includes name ''lab'' then [''lab manual''] else []) @
            (if js_includes name ''notes'' then [''notes''] else [])
      in if keywords \<noteq> [] then keywords
         else [case js_split (toLowerCase subjectName) '' '' of [] \<Rightarrow> [] | w # _ \<Rightarrow> w])"

section \<open>The metadata script: createMaterialFromFile\<close>

text \<open>
  \<open>path.relative(path.join(__dirname, '..'), filePath).replace(/\\/g, '/')\<close> for the
  file with segments \<open>segs\<close> below the project root: the segments joined, every
  backslash turned into a slash (on Windows the separators, elsewhere any backslash of
  a name).
\<close>

definition relativePath :: "string list \<Rightarrow> string" where
  "relativePath segs = slashes (js_join ''/'' segs)"

text \<open>
  \<open>path.basename(filePath, ext)\<close>: the last segment without the extension, which stays
  when it is the whole name.
\<close>

definition basename :: "string list \<Rightarrow> string \<Rightarrow> string" where
  "basename segs ext =
     (case rev segs of
        [] \<Rightarrow> []
      | b # _ \<Rightarrow> if js_endsWith b ext \<and> b \<noteq> ext then take (length b - length ext) b else b)"

text \<open>An array item inside a template literal: absent items print as \<open>undefined\<close>.\<close>

definition item_text :: "string list \<Rightarrow> nat \<Rightarrow> string" where
  "item_text xs i = (if i < length xs then xs ! i else ''undefined'')"

definition createMaterialFromFile :: "string list \<Rightarrow> stats \<Rightarrow> material" where
  "createMaterialFromFile filePath st =
     (let rel = relativePath filePath;
          filename = basename filePath ''.pdf'';
          pathParts = js_split rel ''/'';
          parent = (if 2 \<le> length pathParts then pathParts ! (length pathParts - 2) else []);
          subjectName = (if parent = [] then ''Unknown'' else parent);
          target = ''../data/notes/'' @ item_text (js_split rel ''data/notes/'') 1
      in \<lparr> title = filename,
           description = subjectName @ '' notes'',
           path = target,
           type_m = ''pdf'',
           size_m = formatFileSize (st_size st),
           uploadDate = (case js_split (st_mtime st) ''T'' of [] \<Rightarrow> [] | d # _ \<Rightarrow> d),
           downloadUrl = target,
           keywords_m = generateKeywords filename subjectName \<rparr>)"

section \<open>The metadata script: findSubjectByPath\<close>

text \<open>
  \<open>parseInt\<close> without a radix: leading white space and a sign are skipped, a prefix
  \<open>0x\<close> selects base 16, the longest run of digits is read, and no digit at all gives
  \<open>NaN\<close>, here \<open>None\<close>.
\<close>

definition digitValue :: "char \<Rightarrow> nat" where
  "digitValue c =
     (case map_of (zip ''0123456789abcdefABCDEF''
                       [0, 1, 2, 3, 4, 5, 6, 7, 8, 9, 10, 11, 12, 13, 14, 15, 10, 11, 12, 13, 14, 15]) c of
        Some v \<Rightarrow> v
      | None \<Rightarrow> 99)"

definition parseInt :: "string \<Rightarrow> int option" where
  "parseInt s =
     (let t = dropWhile isSpace s;
          signed = (t \<noteq> [] \<and> (hd t = CHR ''-'' \<or> hd t = CHR ''+''));
          negative = (t \<noteq> [] \<and> hd t = CHR ''-'');
          u = (if signed then tl t else t);
          hex = (js_startsWith u ''0x'' \<or> js_startsWith u ''0X'');
          radix = (if hex then 16 else 10);
          ds = takeWhile (\<lambda>c. digitValue c < radix) (if hex then drop 2 u else u);
          v = foldl (\<lambda>a c. a * radix + digitValue c) 0 ds
      in if ds = [] then None
         else Some (if negative then - int v else int v))"

definition mappings :: "(string \<times> string list) list" where
  "mappings =
     [(''computer network'', [''computer network'', ''cn'']),
      (''research methadology'', [''research methodology'', ''rm'']),
      (''theory of computation'', [''theory of computation'', ''toc'']),
      (''operating-system'', [''operating system'', ''os'']),
      (''graph-theory'', [''graph theory'']),
      (''microcontroller'', [''microcontroller'']),
      (''manuals'', [''lab manual'']),
      (''question'', [''question papers'', ''pyq'']),
      (''syllabus'', [''syllabus'']),
      (''pyq'', [''pyq'', ''question papers'']),
      (''evs'', [''evs'']),
      (''ai'', [''ai'']),
      (''sepm'', [''sepm''])]"

definition subject_matches :: "string \<Rightarrow> subject \<Rightarrow> bool" where
  "subject_matches subjectLower s =
     (let subjectName = toLowerCase (subject_name s) in
      subjectName = subjectLower \<or>
      js_includes subjectName subjectLower \<or>
      js_includes subjectLower subjectName \<or>
      list_ex (\<lambda>(folder, subs).
                 subjectLower = folder \<and> list_ex (\<lambda>sub. js_includes subjectName sub) subs)
              mappings)"

fun find_index :: "('a \<Rightarrow> bool) \<Rightarrow> 'a list \<Rightarrow> nat option" where
  "find_index P [] = None"
| "find_index P (x # xs) = (if P x then Some 0 else map_option Suc (find_index P xs))"

text \<open>
  The source returns the subject object it found inside \<open>data\<close>, which the caller then
  mutates; the model returns where it stands: the indices of the semester, of the branch
  and of the subject.
\<close>

definition findSubjectByPath :: "catalog \<Rightarrow> string list \<Rightarrow> (nat \<times> nat \<times> nat) option" where
  "findSubjectByPath d pathParts =
     (case (List.find (\<lambda>part. js_startsWith part ''semester-'') pathParts,
            List.find (\<lambda>part. part \<in> set [''cse'', ''ai'', ''physics'']) pathParts) of
        (Some semesterMatch, Some branchMatch) \<Rightarrow>
          (let subjectMatch =
                 (if 2 \<le> length pathParts then pathParts ! (length pathParts - 2) else [])
           in if subjectMatch = [] then None
              else
                (case parseInt (item_text (js_split semesterMatch ''-'') 1) of
                   None \<Rightarrow> None
                 | Some semesterNum \<Rightarrow>
                     (case find_index (\<lambda>s. semester_id s = semesterNum) (semesters d) of
                        None \<Rightarrow> None
                      | Some i \<Rightarrow>
                          (let bs = branches (semesters d ! i) in
                           case find_index (\<lambda>b. branch_id b = branchMatch) bs of
                             None \<Rightarrow> None
                           | Some j \<Rightarrow>
                               (case find_index (subject_matches (toLowerCase subjectMatch))
                                       (subjects (bs ! j)) of
                                  None \<Rightarrow> None
                                | Some k \<Rightarrow> Some (i, j, k))))))
      | _ \<Rightarrow> None)"

section \<open>The metadata script: scanForNewFiles\<close>

definition all_materials :: "catalog \<Rightarrow> material list" where
  "all_materials d =
     concat (map (\<lambda>s. concat (map (\<lambda>b. concat (map materials (subjects b))) (branches s)))
                 (semesters d))"

text \<open>The paths of the catalog, in the order the nested \<open>forEach\<close> loops visit them.\<close>

definition all_paths :: "catalog \<Rightarrow> string list" where
  "all_paths d = map path (all_materials d)"

text \<open>\<open>subject.materials.push(m)\<close> on the subject at a place of the catalog.\<close>

definition push_material :: "nat \<times> nat \<times> nat \<Rightarrow> material \<Rightarrow> catalog \<Rightarrow> catalog" where
  "push_material loc m d =
     (case loc of (i, j, k) \<Rightarrow>
        (let sem = semesters d ! i;
             br = branches sem ! j;
             sub = subjects br ! k;
             sub' = sub\<lparr>materials := materials sub @ [m]\<rparr>;
             br' = br\<lparr>subjects := (subjects br)[k := sub']\<rparr>;
             sem' = sem\<lparr>branches := (branches sem)[j := br']\<rparr>
         in d\<lparr>semesters := (semesters d)[i := sem']\<rparr>))"

definition subject_at :: "catalog \<Rightarrow> nat \<times> nat \<times> nat \<Rightarrow> subject" where
  "subject_at d loc = (case loc of (i, j, k) \<Rightarrow> subjects (branches (semesters d ! i) ! j) ! k)"

text \<open>
  The body of the loop of \<open>scanDirectory\<close> for an entry that is not a directory:
  \<open>filePath\<close> are the segments of \<open>fullPath\<close> below the project root and
  \<open>existingPaths\<close> is the set collected before the scan.
\<close>

definition scan_file :: "env \<Rightarrow> string set \<Rightarrow> string list \<Rightarrow> string \<Rightarrow> stats \<Rightarrow> state \<Rightarrow> state" where
  "scan_file e existingPaths filePath item st s =
     (if js_endsWith item ''.pdf'' then
        (let rel = relativePath filePath;
             materialPath = ''../'' @ rel
         in if materialPath \<notin> existingPaths then
              (case findSubjectByPath (data s) (root_parts e @ filePath) of
                 Some loc \<Rightarrow>
                   (let newMaterial = createMaterialFromFile filePath st
                    in console_log (''Added: '' @ title newMaterial @ '' to '' @
                            subject_name (subject_at (data s) loc))
                           (s\<lparr>data := push_material loc newMaterial (data s)\<rparr>))
               | None \<Rightarrow> console_log (''No subject found for: '' @ rel) s)
            else s)
      else s)"

text \<open>
  \<open>scanDirectory dir\<close> lists the directory and visits its entries in order; a
  \<open>statSync\<close> or \<open>readdirSync\<close> that throws ends the run, nothing catching it.
\<close>

fun scanDirectory :: "env \<Rightarrow> string set \<Rightarrow> string list \<Rightarrow> node \<Rightarrow> state \<Rightarrow> outcome"
  and scan_items :: "env \<Rightarrow> string set \<Rightarrow> string list \<Rightarrow> (string \<times> node) list \<Rightarrow> state \<Rightarrow> outcome"
where
  "scanDirectory e ex dir (Dir items) s = scan_items e ex dir items s"
| "scanDirectory e ex dir (File st) s = Aborted (ReaddirError dir) (out s)"
| "scanDirectory e ex dir StatFails s = Aborted (ReaddirError dir) (out s)"
| "scanDirectory e ex dir ReaddirFails s = Aborted (ReaddirError dir) (out s)"
| "scan_items e ex dir [] s = Done s"
| "scan_items e ex dir ((item, n) # rest) s =
     (case n of
        StatFails \<Rightarrow> Aborted (StatError (dir @ [item])) (out s)
      | File st \<Rightarrow> scan_items e ex dir rest (scan_file e ex (dir @ [item]) item st s)
      | _ \<Rightarrow>
          (case scanDirectory e ex (dir @ [item]) n s of
             Aborted x l \<Rightarrow> Aborted x l
           | Done s' \<Rightarrow> scan_items e ex dir rest s'))"

definition notesDir :: "string list" where
  "notesDir = [''data'', ''notes'']"

definition scanForNewFiles :: "env \<Rightarrow> state \<Rightarrow> outcome" where
  "scanForNewFiles e s = scanDirectory e (set (all_paths (data s))) notesDir (notes_tree e) s"

section \<open>The metadata script: updateMaterialMetadata and the run\<close>

definition material_file :: "env \<Rightarrow> material \<Rightarrow> string" where
  "material_file e m =
     (if js_startsWith (path m) ''../data/'' then join_root e (drop 3 (path m))
      else if js_startsWith (path m) ''/data/'' then join_root e (drop 1 (path m))
      else path m)"

text \<open>
  The material is updated in place in the source; the model returns it with the lines
  logged. The \<open>catch\<close> covers \<open>statSync\<close>, the one call of the \<open>try\<close> block that throws.
\<close>

definition updateMaterialMetadata :: "env \<Rightarrow> material \<Rightarrow> material \<times> event list" where
  "updateMaterialMetadata e m =
     (let filePath = material_file e m in
      case statSync e filePath of
        Some st \<Rightarrow>
          (let m' = m\<lparr>size_m := formatFileSize (st_size st),
                       uploadDate := (case js_split (st_mtime st) ''T'' of [] \<Rightarrow> [] | d # _ \<Rightarrow> d)\<rparr>
           in (m', [Log (''Updated: '' @ title m' @ '' - '' @ size_m m')]))
      | None \<Rightarrow> (m, [Log (''File not found: '' @ filePath)]))"

text \<open>\<open>forEach\<close> over an array whose items are updated in place, the log lines in order.\<close>

fun for_each :: "('a \<Rightarrow> 'a \<times> event list) \<Rightarrow> 'a list \<Rightarrow> 'a list \<times> event list" where
  "for_each f [] = ([], [])"
| "for_each f (x # xs) =
     (case f x of (x', l) \<Rightarrow> (case for_each f xs of (xs', l') \<Rightarrow> (x' # xs', l @ l')))"

definition update_subject :: "env \<Rightarrow> subject \<Rightarrow> subject \<times> event list" where
  "update_subject e s =
     (case for_each (updateMaterialMetadata e) (materials s) of
        (ms, l) \<Rightarrow> (s\<lparr>materials := ms\<rparr>, l))"

definition update_branch :: "env \<Rightarrow> branch \<Rightarrow> branch \<times> event list" where
  "update_branch e b =
     (case for_each (update_subject e) (subjects b) of (ss, l) \<Rightarrow> (b\<lparr>subjects := ss\<rparr>, l))"

definition update_semester :: "env \<Rightarrow> semester \<Rightarrow> semester \<times> event list" where
  "update_semester e s =
     (case for_each (update_branch e) (branches s) of (bs, l) \<Rightarrow> (s\<lparr>branches := bs\<rparr>, l))"

definition update_all :: "env \<Rightarrow> state \<Rightarrow> state" where
  "update_all e s =
     (case for_each (update_semester e) (semesters (data s)) of
        (ss, l) \<Rightarrow> \<lparr>data = (data s)\<lparr>semesters := ss\<rparr>, out = out s @ l\<rparr>)"

text \<open>
  The script from top to bottom, on the catalog it has parsed: the scan, the update of
  every material, the one \<open>writeFileSync\<close> and the closing line.
\<close>

definition run_script :: "env \<Rightarrow> catalog \<Rightarrow> outcome" where
  "run_script e d =
     (case scanForNewFiles e \<lparr>data = d, out = []\<rparr> of
        Aborted x l \<Rightarrow> Aborted x l
      | Done s1 \<Rightarrow>
          (let s2 = update_all e s1 in
           if write_fails e then Aborted WriteError (out s2)
           else Done (console_log ''File metadata updated successfully!''
                          (s2\<lparr>out := out s2 @ [WriteFile (data s2)]\<rparr>))))"

section \<open>The metadata script: notions used to state its properties\<close>

text \<open>What a run has printed and written, whether it ended or was aborted.\<close>

fun trace :: "outcome \<Rightarrow> event list" where
  "trace (Done s) = out s"
| "trace (Aborted x l) = l"

fun is_write :: "event \<Rightarrow> bool" where
  "is_write (WriteFile d) = True"
| "is_write (Log msg) = False"

definition writes :: "event list \<Rightarrow> event list" where
  "writes l = filter is_write l"

text \<open>A tree every directory of which can be listed and every entry of which can be read.\<close>

fun listable :: "node \<Rightarrow> bool" and entries_ok :: "(string \<times> node) list \<Rightarrow> bool" where
  "listable (Dir items) = entries_ok items"
| "listable (File st) = False"
| "listable StatFails = False"
| "listable ReaddirFails = False"
| "entries_ok [] = True"
| "entries_ok ((item, n) # rest) = ((case n of File st \<Rightarrow> True | _ \<Rightarrow> listable n) \<and> entries_ok rest)"

text \<open>
  A tree as a file system holds it: the names of a directory differ from each other,
  and a name is not empty and has no slash; names without a backslash are asked for as
  well, which Windows guarantees.
\<close>

definition wf_name :: "string \<Rightarrow> bool" where
  "wf_name n = (n \<noteq> [] \<and> CHR ''/'' \<notin> set n \<and> CHR 0x5C \<notin> set n)"

fun wf_node :: "node \<Rightarrow> bool" and wf_entries :: "(string \<times> node) list \<Rightarrow> bool" where
  "wf_node (Dir items) = (distinct (map fst items) \<and> wf_entries items)"
| "wf_node (File st) = True"
| "wf_node StatFails = True"
| "wf_node ReaddirFails = True"
| "wf_entries [] = True"
| "wf_entries ((item, n) # rest) = (wf_name item \<and> wf_node n \<and> wf_entries rest)"

text \<open>The PDF files of a tree, each by its segments, in the order the scan meets them.\<close>

fun pdf_files :: "string list \<Rightarrow> node \<Rightarrow> string list list"
  and pdf_entries :: "string list \<Rightarrow> (string \<times> node) list \<Rightarrow> string list list" where
  "pdf_files dir (Dir items) = pdf_entries dir items"
| "pdf_files dir (File st) = []"
| "pdf_files dir StatFails = []"
| "pdf_files dir ReaddirFails = []"
| "pdf_entries dir [] = []"
| "pdf_entries dir ((item, n) # rest) =
     (case n of
        File st \<Rightarrow> if js_endsWith item ''.pdf'' then [dir @ [item]] else []
      | _ \<Rightarrow> pdf_files (dir @ [item]) n) @ pdf_entries dir rest"

text \<open>The \<open>path\<close> field \<open>createMaterialFromFile\<close> gives a file.\<close>

definition created_path :: "string list \<Rightarrow> string" where
  "created_path segs =
     ''../data/notes/'' @ item_text (js_split (relativePath segs) ''data/notes/'') 1"

text \<open>
  No PDF file has the text \<open>data/notes/\<close> in its path below the notes directory (as a
  directory \<open>notes\<close> inside a directory whose name ends in \<open>data\<close> would give it).
\<close>

definition no_nested_notes :: "node \<Rightarrow> bool" where
  "no_nested_notes t =
     list_all (\<lambda>segs. \<not> js_includes (js_join ''/'' (drop 2 segs)) ''data/notes/'')
              (pdf_files notesDir t)"

definition branch_materials :: "branch \<Rightarrow> material list" where
  "branch_materials b = concat (map materials (subjects b))"

definition semester_materials :: "semester \<Rightarrow> material list" where
  "semester_materials s = concat (map branch_materials (branches s))"

subsection \<open>A small site\<close>

text \<open>
  A catalog with one subject and two materials, the file of the second of which is gone,
  and a notes directory with a stray PDF file at its top and one new file of the subject.
\<close>

definition st_w :: stats where
  "st_w = \<lparr>st_size = 1536, st_mtime = ''2024-05-06T07:08:09.000Z''\<rparr>"

definition intro_w :: material where
  "intro_w = \<lparr>title = ''intro'', description = ''CN notes'',
     path = ''../data/notes/semester-3/cse/CN/intro.pdf'', type_m = ''pdf'', size_m = ''1 KB'',
     uploadDate = ''2023-01-01'', downloadUrl = ''../data/notes/semester-3/cse/CN/intro.pdf'',
     keywords_m = [''cn'']\<rparr>"

definition gone_w :: material where
  "gone_w = \<lparr>title = ''gone'', description = ''CN notes'',
     path = ''../data/notes/semester-3/cse/CN/gone.pdf'', type_m = ''pdf'', size_m = ''2 KB'',
     uploadDate = ''2023-01-02'', downloadUrl = ''../data/notes/semester-3/cse/CN/gone.pdf'',
     keywords_m = [''cn'']\<rparr>"

definition cat_w :: catalog where
  "cat_w = \<lparr>semesters = [\<lparr>semester_id = 3, branches = [\<lparr>branch_id = ''cse'', subjects =
     [\<lparr>subject_name = ''CN'', materials = [intro_w, gone_w]\<rparr>]\<rparr>]\<rparr>]\<rparr>"

definition tree_w :: node where
  "tree_w = Dir [(''stray.pdf'', File st_w),
     (''semester-3'', Dir [(''cse'', Dir [(''CN'', Dir [(''unit 1.pdf'', File st_w)])])])]"

definition env_w :: env where
  "env_w = \<lparr>root_parts = ['''', ''srv'', ''site''], notes_tree = tree_w,
     join_root = (\<lambda>s. ''/srv/site/'' @ s),
     statSync = (\<lambda>p. if p = ''/srv/site/data/notes/semester-3/cse/CN/intro.pdf''
                      then Some st_w else None),
     write_fails = False\<rparr>"




text \<open>A catalog that holds the same path twice, and an empty notes directory.\<close>

definition cat_dup :: catalog where
  "cat_dup = \<lparr>semesters = [\<lparr>semester_id = 3, branches = [\<lparr>branch_id = ''cse'', subjects =
     [\<lparr>subject_name = ''CN'', materials = [gone_w, gone_w]\<rparr>]\<rparr>]\<rparr>]\<rparr>"

definition env_empty :: env where
  "env_empty = \<lparr>root_parts = ['''', ''srv'', ''site''], notes_tree = Dir [],
     join_root = (\<lambda>s. ''/srv/site/'' @ s), statSync = (\<lambda>p. None), write_fails = False\<rparr>"

text \<open>
  A notes directory with a directory \<open>data/notes\<close> inside it, and a catalog whose only
  subject is called Notes.
\<close>

definition cat_notes :: catalog where
  "cat_notes = \<lparr>semesters = [\<lparr>semester_id = 3, branches = [\<lparr>branch_id = ''cse'', subjects =
     [\<lparr>subject_name = ''Notes'', materials = []\<rparr>]\<rparr>]\<rparr>]\<rparr>"

definition tree_nested :: node where
  "tree_nested = Dir [(''semester-3'', Dir [(''cse'', Dir [(''data'', Dir [(''notes'', Dir
     [(''a.pdf'', File st_w), (''b.pdf'', File st_w)])])])])]"

definition env_nested :: env where
  "env_nested = \<lparr>root_parts = ['''', ''srv'', ''site''], notes_tree = tree_nested,
     join_root = (\<lambda>s. ''/srv/site/'' @ s), statSync = (\<lambda>p. None), write_fails = False\<rparr>"

section \<open>The browser\<close>

text \<open>
  What the scripts of the pages use of the browser. \<open>localStorage\<close> works, or refuses
  every write (the quota is used up), or refuses every access; the console keeps the
  lines printed, each with the error object printed after the text, if any; the clock
  gives the hour of the day; \<open>elements\<close> are the selectors that find an element in the
  document and \<open>invalid\<close> the selectors \<open>querySelector\<close> rejects by throwing. The
  selectors written in the source are valid ones: a query with them finds or misses.
\<close>

datatype js_error = SecurityError | QuotaExceededError | SyntaxError | TypeError

datatype level = ConsoleLog | ConsoleWarn | ConsoleError

datatype line = Line level string "js_error option"

datatype ls_mode = Working | Full | Denied

datatype handle = Handle nat

datatype icon = AutoIcon | MoonIcon | SunIcon

datatype action =
    RemoveTransitioning
  | ShowNotification string
  | HideNotification string

record browser =
  ls_mode :: ls_mode
  ls_items :: "string \<rightharpoonup> string"
  console :: "line list"
  clock_hour :: nat
  elements :: "string set"
  invalid :: "string set"
  ready_loading :: bool
  data_theme :: "string option"
  transitioning :: bool
  icon_text :: "icon option"
  toggle_title :: "string option"
  listeners :: "string list"
  timeouts :: "(handle \<times> nat \<times> action) list"
  intervals :: "handle list"
  next_handle :: nat
  notifications :: "string list"

definition getItem :: "string \<Rightarrow> 'a browser_scheme \<Rightarrow> js_error + string option" where
  "getItem k b = (case ls_mode b of Denied \<Rightarrow> Inl SecurityError | _ \<Rightarrow> Inr (ls_items b k))"

definition setItem :: "string \<Rightarrow> string \<Rightarrow> 'a browser_scheme \<Rightarrow> js_error + 'a browser_scheme" where
  "setItem k v b =
     (case ls_mode b of
        Denied \<Rightarrow> Inl SecurityError
      | Full \<Rightarrow> Inl QuotaExceededError
      | Working \<Rightarrow> Inr (b\<lparr>ls_items := (ls_items b)(k \<mapsto> v)\<rparr>))"

definition print :: "level \<Rightarrow> string \<Rightarrow> js_error option \<Rightarrow> 'a browser_scheme \<Rightarrow> 'a browser_scheme" where
  "print lv msg err b = b\<lparr>console := console b @ [Line lv msg err]\<rparr>"

text \<open>\<open>setTimeout\<close> and \<open>setInterval\<close> hand out fresh handles.\<close>

definition setTimeout :: "action \<Rightarrow> nat \<Rightarrow> 'a browser_scheme \<Rightarrow> 'a browser_scheme" where
  "setTimeout act delay b =
     b\<lparr>timeouts := timeouts b @ [(Handle (next_handle b), delay, act)],
       next_handle := Suc (next_handle b)\<rparr>"

section \<open>The offline cache\<close>

text \<open>
  \<open>JSON.stringify\<close> and \<open>JSON.parse\<close> belong to the engine and are parameters here,
  over any type of values: \<open>stringify\<close> throws, gives \<open>undefined\<close> or gives a text, and
  \<open>parse\<close> gives a value or throws (\<open>None\<close>).
\<close>

datatype stringified = Thrown js_error | Undefined | Text string

record 'v json =
  stringify :: "'v \<Rightarrow> stringified"
  parse :: "string \<Rightarrow> 'v option"

definition saveOfflineData :: "'v json \<Rightarrow> string \<Rightarrow> 'v \<Rightarrow> 'a browser_scheme \<Rightarrow> bool \<times> 'a browser_scheme" where
  "saveOfflineData js key d b =
     (case stringify js d of
        Thrown e \<Rightarrow> (False, print ConsoleError ''Error saving offline data:'' (Some e) b)
      | r \<Rightarrow>
          (case setItem key (case r of Text s \<Rightarrow> s | _ \<Rightarrow> ''undefined'') b of
             Inl e \<Rightarrow> (False, print ConsoleError ''Error saving offline data:'' (Some e) b)
           | Inr b' \<Rightarrow> (True, b')))"

text \<open>The result \<open>None\<close> is the \<open>null\<close> the function returns itself.\<close>

definition loadOfflineData :: "'v json \<Rightarrow> string \<Rightarrow> 'a browser_scheme \<Rightarrow> 'v option \<times> 'a browser_scheme" where
  "loadOfflineData js key b =
     (case getItem key b of
        Inl e \<Rightarrow> (None, print ConsoleError ''Error loading offline data:'' (Some e) b)
      | Inr None \<Rightarrow> (None, b)
      | Inr (Some s) \<Rightarrow>
          if s = [] then (None, b)
          else
            (case parse js s of
               None \<Rightarrow> (None, print ConsoleError ''Error loading offline data:'' (Some SyntaxError) b)
             | Some v \<Rightarrow> (Some v, b)))"

text \<open>
  A value is JSON-serializable when \<open>JSON.stringify\<close> gives it a text, not the empty
  one, that \<open>JSON.parse\<close> reads back as the value.
\<close>

definition serializable :: "'v json \<Rightarrow> 'v \<Rightarrow> bool" where
  "serializable js d =
     (case stringify js d of Text s \<Rightarrow> s \<noteq> [] \<and> parse js s = Some d | _ \<Rightarrow> False)"

section \<open>The theme manager\<close>

text \<open>
  The page: the browser together with the fields of the one \<open>ThemeManager\<close> object,
  \<open>theme\<close>, \<open>autoMode\<close> and \<open>autoCheckInterval\<close> (\<open>None\<close> for \<open>null\<close>). Every method
  takes the page and returns it as it leaves it, after its result if it has one.
\<close>

record page = browser +
  theme :: string
  autoMode :: bool
  autoCheckInterval :: "handle option"

definition getStoredTheme :: "'a browser_scheme \<Rightarrow> string option \<times> 'a browser_scheme" where
  "getStoredTheme b =
     (case getItem ''theme'' b of
        Inl e \<Rightarrow> (None, print ConsoleWarn ''localStorage not available:'' (Some e) b)
      | Inr v \<Rightarrow> (v, b))"

definition setStoredTheme :: "string \<Rightarrow> 'a browser_scheme \<Rightarrow> 'a browser_scheme" where
  "setStoredTheme t b =
     (case setItem ''theme'' t b of
        Inl e \<Rightarrow> print ConsoleWarn ''localStorage not available:'' (Some e) b
      | Inr b' \<Rightarrow> b')"

definition getAutoMode :: "'a browser_scheme \<Rightarrow> bool \<times> 'a browser_scheme" where
  "getAutoMode b =
     (case getItem ''themeAutoMode'' b of
        Inl e \<Rightarrow> (False, b)
      | Inr v \<Rightarrow> (v = Some ''true'', b))"

definition setAutoMode :: "bool \<Rightarrow> 'a browser_scheme \<Rightarrow> 'a browser_scheme" where
  "setAutoMode enabled b =
     (case setItem ''themeAutoMode'' (if enabled then ''true'' else ''false'') b of
        Inl e \<Rightarrow> print ConsoleWarn ''localStorage not available:'' (Some e) b
      | Inr b' \<Rightarrow> b')"

definition getAutoTheme :: "'a browser_scheme \<Rightarrow> string" where
  "getAutoTheme b = (if 18 \<le> clock_hour b \<or> clock_hour b < 6 then ''dark'' else ''light'')"

definition updateToggleIcon :: "page \<Rightarrow> page" where
  "updateToggleIcon s =
     (let s1 = (if ''.theme-toggle .theme-icon'' \<in> elements s
                then s\<lparr>icon_text := Some (if autoMode s then AutoIcon
                                           else if theme s = ''dark'' then MoonIcon else SunIcon)\<rparr>
                else s)
      in if ''.theme-toggle'' \<in> elements s1
         then s1\<lparr>toggle_title :=
                   Some (if autoMode s1 then ''Auto theme enabled (long-press to disable)''
                         else ''Toggle theme (long-press for auto mode)'')\<rparr>
         else s1)"

definition applyTheme :: "string \<Rightarrow> bool \<Rightarrow> page \<Rightarrow> page" where
  "applyTheme t animate s =
     (let s1 = s\<lparr>theme := t\<rparr>;
          s2 = (if animate
                then setTimeout RemoveTransitioning 300
                       (s1\<lparr>transitioning := True, data_theme := Some t\<rparr>)
                else s1\<lparr>data_theme := Some t\<rparr>)
      in updateToggleIcon (setStoredTheme t s2))"

definition startAutoThemeCheck :: "page \<Rightarrow> page" where
  "startAutoThemeCheck s =
     s\<lparr>intervals := intervals s @ [Handle (next_handle s)],
       next_handle := Suc (next_handle s),
       autoCheckInterval := Some (Handle (next_handle s))\<rparr>"

definition stopAutoThemeCheck :: "page \<Rightarrow> page" where
  "stopAutoThemeCheck s =
     (case autoCheckInterval s of
        Some h \<Rightarrow> s\<lparr>intervals := removeAll h (intervals s), autoCheckInterval := None\<rparr>
      | None \<Rightarrow> s)"

text \<open>The callback \<open>startAutoThemeCheck\<close> hands to \<open>setInterval\<close>, run once a minute.\<close>

definition auto_theme_check :: "page \<Rightarrow> page" where
  "auto_theme_check s =
     (if autoMode s then
        (let autoTheme = getAutoTheme s
         in if autoTheme \<noteq> theme s then applyTheme autoTheme True s else s)
      else s)"

definition showNotification :: "string \<Rightarrow> page \<Rightarrow> page" where
  "showNotification message s =
     setTimeout (HideNotification message) 2000
       (setTimeout (ShowNotification message) 10
          (s\<lparr>notifications := notifications s @ [message]\<rparr>))"

text \<open>The part of \<open>toggleTheme\<close> before the flip: a manual toggle disables auto mode.\<close>

definition disable_auto :: "page \<Rightarrow> page" where
  "disable_auto s =
     (if autoMode s then stopAutoThemeCheck (setAutoMode False (s\<lparr>autoMode := False\<rparr>)) else s)"

definition toggleTheme :: "page \<Rightarrow> page" where
  "toggleTheme s =
     (let s1 = disable_auto s;
          newTheme = (if theme s1 = ''dark'' then ''light'' else ''dark'')
      in applyTheme newTheme True s1)"

definition toggleAutoMode :: "page \<Rightarrow> page" where
  "toggleAutoMode s =
     (let s1 = s\<lparr>autoMode := \<not> autoMode s\<rparr>;
          s2 = setAutoMode (autoMode s1) s1
      in if autoMode s2 then
           showNotification ''Auto theme enabled''
             (startAutoThemeCheck (applyTheme (getAutoTheme s2) True s2))
         else showNotification ''Auto theme disabled'' (stopAutoThemeCheck s2))"

definition setupToggleButton :: "page \<Rightarrow> page" where
  "setupToggleButton s =
     (if ''.theme-toggle'' \<in> elements s
      then updateToggleIcon
             (s\<lparr>listeners := listeners s @
                   [''click'', ''mousedown'', ''mouseup'', ''mouseleave'', ''touchstart'', ''touchend'']\<rparr>)
      else s)"

definition init :: "page \<Rightarrow> page" where
  "init s =
     (let s1 = applyTheme (theme s) True s;
          s2 = (if ready_loading s1 then s1\<lparr>listeners := listeners s1 @ [''DOMContentLoaded'']\<rparr>
                else setupToggleButton s1)
      in if autoMode s2 then startAutoThemeCheck s2 else s2)"

text \<open>\<open>new ThemeManager()\<close>; an empty stored theme is falsy, as \<open>null\<close> is.\<close>

definition new_ThemeManager :: "browser \<Rightarrow> page" where
  "new_ThemeManager b =
     (case getStoredTheme b of (stored, b1) \<Rightarrow>
        (let t = (case stored of Some v \<Rightarrow> if v = [] then getAutoTheme b1 else v
                  | None \<Rightarrow> getAutoTheme b1)
         in case getAutoMode b1 of (am, b2) \<Rightarrow>
              init (browser.extend b2 (page.fields t am None))))"

subsection \<open>The theme manager of navigation.js\<close>

text \<open>
  The older \<open>ThemeManager\<close> of \<open>navigation.js\<close> has no auto mode; it is modelled on the
  same page, of which it uses the theme only.
\<close>

definition nav_updateToggleIcon :: "page \<Rightarrow> page" where
  "nav_updateToggleIcon s =
     (if ''.theme-toggle .theme-icon'' \<in> elements s
      then s\<lparr>icon_text := Some (if theme s = ''dark'' then MoonIcon else SunIcon)\<rparr>
      else s)"

definition nav_applyTheme :: "string \<Rightarrow> page \<Rightarrow> page" where
  "nav_applyTheme t s = nav_updateToggleIcon (setStoredTheme t (s\<lparr>theme := t, data_theme := Some t\<rparr>))"

definition nav_toggleTheme :: "page \<Rightarrow> page" where
  "nav_toggleTheme s = nav_applyTheme (if theme s = ''dark'' then ''light'' else ''dark'') s"

section \<open>The mobile menu\<close>

text \<open>
  \<open>navUtils.querySelector\<close> on the document: whether an element was found, \<open>False\<close>
  standing for \<open>null\<close>.
\<close>

definition navUtils_querySelector :: "string \<Rightarrow> 'a browser_scheme \<Rightarrow> bool \<times> 'a browser_scheme" where
  "navUtils_querySelector selector b =
     (if selector \<in> invalid b
      then (False, print ConsoleError
                     (''Error querying selector '' @ [CHR 0x22] @ selector @ [CHR 0x22] @ '':'')
                     (Some SyntaxError) b)
      else (selector \<in> elements b, b))"

record mobile_menu =
  menuButton :: bool
  navLinks :: bool
  initialized :: bool
  overlay :: bool

definition menu_init :: "mobile_menu \<Rightarrow> 'a browser_scheme \<Rightarrow> mobile_menu \<times> 'a browser_scheme" where
  "menu_init m b =
     (if menuButton m \<and> navLinks m \<and> \<not> initialized m
      then (m\<lparr>initialized := True, overlay := True\<rparr>,
            print ConsoleLog ''Mobile menu initialized successfully'' None
              (b\<lparr>elements := insert ''.nav-overlay'' (elements b),
                 listeners := listeners b @
                   [''menu click'', ''overlay click'', ''document click'', ''document keydown'']\<rparr>))
      else (m, print ConsoleError ''Menu elements not found or already initialized'' None b))"

definition new_MobileMenu :: "'a browser_scheme \<Rightarrow> mobile_menu \<times> 'a browser_scheme" where
  "new_MobileMenu b =
     (case navUtils_querySelector ''.menu-button'' b of (mb, b1) \<Rightarrow>
        (case navUtils_querySelector ''.nav-links'' b1 of (nl, b2) \<Rightarrow>
           menu_init \<lparr>menuButton = mb, navLinks = nl, initialized = False, overlay = False\<rparr> b2))"

subsection \<open>Some pages\<close>

text \<open>
  A browser whose storage holds a theme that is neither dark nor light; a page by night
  with auto mode off; a page by day with auto mode on, and the same page with a storage
  that refuses writes; a browser whose storage refuses every access and that has no menu
  button; and the JSON of an engine cut down to the values \<open>null\<close>, \<open>true\<close> and
  \<open>false\<close>.
\<close>

definition b_blue :: browser where
  "b_blue = \<lparr>ls_mode = Working, ls_items = [''theme'' \<mapsto> ''blue''], console = [], clock_hour = 9,
     elements = {''.theme-toggle'', ''.theme-toggle .theme-icon''}, invalid = {}, ready_loading = False,
     data_theme = None, transitioning = False, icon_text = None, toggle_title = None,
     listeners = [], timeouts = [], intervals = [], next_handle = 1, notifications = []\<rparr>"

definition page_night :: page where
  "page_night = \<lparr>ls_mode = Working, ls_items = [''theme'' \<mapsto> ''light''], console = [], clock_hour = 20,
     elements = {''.theme-toggle'', ''.theme-toggle .theme-icon''}, invalid = {}, ready_loading = False,
     data_theme = Some ''light'', transitioning = False, icon_text = Some SunIcon, toggle_title = None,
     listeners = [], timeouts = [], intervals = [], next_handle = 1, notifications = [],
     theme = ''light'', autoMode = False, autoCheckInterval = None\<rparr>"

definition page_auto :: page where
  "page_auto = \<lparr>ls_mode = Working, ls_items = [''theme'' \<mapsto> ''dark'', ''themeAutoMode'' \<mapsto> ''true''],
     console = [], clock_hour = 9,
     elements = {''.theme-toggle'', ''.theme-toggle .theme-icon''}, invalid = {}, ready_loading = False,
     data_theme = Some ''dark'', transitioning = False, icon_text = Some AutoIcon, toggle_title = None,
     listeners = [], timeouts = [], intervals = [Handle 1], next_handle = 2, notifications = [],
     theme = ''dark'', autoMode = True, autoCheckInterval = Some (Handle 1)\<rparr>"

definition page_full :: page where
  "page_full = page_auto\<lparr>ls_mode := Full\<rparr>"

definition b_denied :: browser where
  "b_denied = b_blue\<lparr>ls_mode := Denied, elements := {''.nav-links''}, invalid := {''div[''}\<rparr>"

datatype atom = JNull | JTrue | JFalse

definition json_atoms :: "atom json" where
  "json_atoms =
     \<lparr>stringify = (\<lambda>v. Text (case v of JNull \<Rightarrow> ''null'' | JTrue \<Rightarrow> ''true'' | JFalse \<Rightarrow> ''false'')),
      parse = (\<lambda>s. if s = ''null'' then Some JNull else if s = ''true'' then Some JTrue
                    else if s = ''false'' then Some JFalse else None)\<rparr>"

definition b_saved :: browser where
  "b_saved = b_blue\<lparr>ls_items := (ls_items b_blue)(''tasks'' \<mapsto> ''true'')\<rparr>"

section \<open>Theorems\<close>

text \<open>
  C5: formatFileSize applied to 0 returns exactly the string "0 Bytes", and applied to
  1024 it returns exactly the string "1 KB".
\<close>

theorem formatFileSize_zero_and_kilobyte:
  "formatFileSize 0 = ''0 Bytes'' \<and> formatFileSize 1024 = ''1 KB''"
proof -
  have i: "floor_log 1024 1024 = 1"
    by (simp add: floor_log.simps)
  have d: "digits10 (Suc 0) = ''1''"
    by (simp add: digits10.simps)
  have "formatFileSize 1024 = ''1 KB''"
    by (simp add: formatFileSize_def i show_hundredths_def d sizes_def)
  moreover have "formatFileSize 0 = ''0 Bytes''"
    by (simp add: formatFileSize_def)
  ultimately show ?thesis by simp
qed

subsection \<open>The metadata script\<close>

lemma writes_scan_file: "writes (out (scan_file e ex fp item st s)) = writes (out s)"
  by (simp add: scan_file_def writes_def console_log_def Let_def split: option.splits)

lemma writes_scan:
  "writes (trace (scanDirectory e ex dir n s)) = writes (out s)"
  "writes (trace (scan_items e ex dir items s)) = writes (out s)"
proof (induction e ex dir n s and e ex dir items s rule: scanDirectory_scan_items.induct)
  case (6 e ex dir item n rest s)
  show ?case
  proof (cases n)
    case (File st)
    then show ?thesis using 6(1)[OF File] by (simp add: writes_scan_file)
  next
    case (Dir xs)
    show ?thesis
    proof (cases "scanDirectory e ex (dir @ [item]) n s")
      case (Done s')
      then show ?thesis using Dir 6(2)[OF Dir] 6(3)[OF Dir Done] by simp
    next
      case (Aborted x l)
      then show ?thesis using Dir 6(2)[OF Dir] by simp
    qed
  next
    case StatFails
    then show ?thesis by simp
  next
    case ReaddirFails
    then show ?thesis by simp
  qed
qed simp_all

lemma listable_scan:
  "listable n \<Longrightarrow> \<exists>s'. scanDirectory e ex dir n s = Done s'"
  "entries_ok items \<Longrightarrow> \<exists>s'. scan_items e ex dir items s = Done s'"
proof (induction e ex dir n s and e ex dir items s rule: scanDirectory_scan_items.induct)
  case (6 e ex dir item n rest s)
  show ?case
  proof (cases n)
    case (File st)
    then show ?thesis using 6(1)[OF File] 6(6) by simp
  next
    case (Dir xs)
    then obtain s' where s': "scanDirectory e ex (dir @ [item]) n s = Done s'"
      using 6(2)[OF Dir] 6(6) by auto
    then show ?thesis using Dir 6(3)[OF Dir s'] 6(6) by simp
  next
    case StatFails
    then show ?thesis using 6(6) by simp
  next
    case ReaddirFails
    then show ?thesis using 6(6) by simp
  qed
qed simp_all

lemma path_createMaterialFromFile: "path (createMaterialFromFile segs st) = created_path segs"
  by (simp add: createMaterialFromFile_def created_path_def Let_def)

lemma find_index_less: "find_index P xs = Some i \<Longrightarrow> i < length xs"
  by (induction xs arbitrary: i) (auto split: if_splits)

lemma findSubjectByPath_valid:
  assumes "findSubjectByPath d pp = Some (i, j, k)"
  shows "i < length (semesters d) \<and> j < length (branches (semesters d ! i)) \<and>
         k < length (subjects (branches (semesters d ! i) ! j))"
  using assms
  by (auto simp: findSubjectByPath_def Let_def split: option.splits if_splits dest: find_index_less)

lemma mset_concat_map_update:
  assumes "i < length xs"
  shows "mset (concat (map f (xs[i := y]))) + mset (f (xs ! i)) = mset (concat (map f xs)) + mset (f y)"
proof -
  have xs: "xs = take i xs @ xs ! i # drop (Suc i) xs"
    using assms by (simp add: id_take_nth_drop)
  have "xs[i := y] = take i xs @ y # drop (Suc i) xs"
    using assms by (simp add: upd_conv_take_nth_drop)
  then have "mset (concat (map f (xs[i := y]))) + mset (f (xs ! i)) =
      mset (concat (map f (take i xs))) + mset (f y) + mset (concat (map f (drop (Suc i) xs))) + mset (f (xs ! i))"
    by simp
  also have "\<dots> = mset (concat (map f (take i xs @ xs ! i # drop (Suc i) xs))) + mset (f y)"
    by simp
  finally show ?thesis using xs by simp
qed

lemma all_materials_alt: "all_materials d = concat (map semester_materials (semesters d))"
  by (simp add: all_materials_def semester_materials_def[abs_def] branch_materials_def[abs_def])

lemma mset_push_material:
  assumes "i < length (semesters d)" "j < length (branches (semesters d ! i))"
    "k < length (subjects (branches (semesters d ! i) ! j))"
  shows "mset (all_materials (push_material (i, j, k) m d)) = add_mset m (mset (all_materials d))"
proof -
  define sem where "sem = semesters d ! i"
  define br where "br = branches sem ! j"
  define sub where "sub = subjects br ! k"
  define sub' where "sub' = sub\<lparr>materials := materials sub @ [m]\<rparr>"
  define br' where "br' = br\<lparr>subjects := (subjects br)[k := sub']\<rparr>"
  define sem' where "sem' = sem\<lparr>branches := (branches sem)[j := br']\<rparr>"
  have p: "push_material (i, j, k) m d = d\<lparr>semesters := (semesters d)[i := sem']\<rparr>"
    by (simp add: push_material_def Let_def sem_def br_def sub_def sub'_def br'_def sem'_def)
  have k: "k < length (subjects br)" and j: "j < length (branches sem)"
    using assms by (simp_all add: br_def sem_def)
  have b: "mset (branch_materials br') + mset (materials sub) = mset (branch_materials br) + mset (materials sub')"
    using mset_concat_map_update[OF k, of materials sub']
    by (simp add: branch_materials_def br'_def sub_def)
  then have b': "mset (branch_materials br') = add_mset m (mset (branch_materials br))"
    by (simp add: sub'_def)
  have s: "mset (semester_materials sem') + mset (branch_materials br) =
           mset (semester_materials sem) + mset (branch_materials br')"
    using mset_concat_map_update[OF j, of branch_materials br']
    by (simp add: semester_materials_def sem'_def br_def)
  then have s': "mset (semester_materials sem') = add_mset m (mset (semester_materials sem))"
    by (simp add: b')
  have "mset (all_materials (push_material (i, j, k) m d)) + mset (semester_materials sem) =
        mset (all_materials d) + mset (semester_materials sem')"
    using mset_concat_map_update[OF assms(1), of semester_materials sem']
    by (simp add: p all_materials_alt sem_def)
  then show ?thesis by (simp add: s')
qed

lemma mset_scan_file:
  "\<exists>fs. (fs = [] \<or> fs = [fp] \<and> js_endsWith item ''.pdf'' \<and> ''../'' @ relativePath fp \<notin> ex) \<and>
     mset (all_paths (data (scan_file e ex fp item st s))) =
     mset (all_paths (data s)) + mset (map created_path fs)"
proof (cases "js_endsWith item ''.pdf'' \<and> ''../'' @ relativePath fp \<notin> ex")
  case False
  then have "data (scan_file e ex fp item st s) = data s"
    by (auto simp: scan_file_def Let_def)
  then show ?thesis by (intro exI[of _ "[]"]) simp
next
  case True
  show ?thesis
  proof (cases "findSubjectByPath (data s) (root_parts e @ fp)")
    case None
    then have "data (scan_file e ex fp item st s) = data s"
      using True by (simp add: scan_file_def Let_def console_log_def)
    then show ?thesis by (intro exI[of _ "[]"]) simp
  next
    case (Some loc)
    obtain i j k where loc: "loc = (i, j, k)" by (cases loc) auto
    have d: "data (scan_file e ex fp item st s) =
             push_material (i, j, k) (createMaterialFromFile fp st) (data s)"
      using True Some loc by (simp add: scan_file_def Let_def console_log_def)
    have "mset (all_materials (data (scan_file e ex fp item st s))) =
          add_mset (createMaterialFromFile fp st) (mset (all_materials (data s)))"
      unfolding d using findSubjectByPath_valid[OF Some[unfolded loc]]
      by (intro mset_push_material) simp_all
    then have "mset (all_paths (data (scan_file e ex fp item st s))) =
               mset (all_paths (data s)) + mset (map created_path [fp])"
      by (simp add: all_paths_def path_createMaterialFromFile)
    then show ?thesis using True by (intro exI[of _ "[fp]"]) simp
  qed
qed

lemma mset_scan:
  "scanDirectory e ex dir n s = Done s' \<Longrightarrow>
     \<exists>fs. subseq fs (pdf_files dir n) \<and> (\<forall>f\<in>set fs. ''../'' @ relativePath f \<notin> ex) \<and>
       mset (all_paths (data s')) = mset (all_paths (data s)) + mset (map created_path fs)"
  "scan_items e ex dir items s = Done s' \<Longrightarrow>
     \<exists>fs. subseq fs (pdf_entries dir items) \<and> (\<forall>f\<in>set fs. ''../'' @ relativePath f \<notin> ex) \<and>
       mset (all_paths (data s')) = mset (all_paths (data s)) + mset (map created_path fs)"
proof (induction e ex dir n s and e ex dir items s arbitrary: s' and s'
    rule: scanDirectory_scan_items.induct)
  case (5 e ex dir s)
  then show ?case by (intro exI[of _ "[]"]) simp
next
  case (6 e ex dir item n rest s)
  show ?case
  proof (cases n)
    case (File st)
    let ?s1 = "scan_file e ex (dir @ [item]) item st s"
    from "6.prems" File have run: "scan_items e ex dir rest ?s1 = Done s'" by simp
    from "6.IH"(1)[OF File run] obtain fs2 where fs2: "subseq fs2 (pdf_entries dir rest)"
      "\<forall>f\<in>set fs2. ''../'' @ relativePath f \<notin> ex"
      "mset (all_paths (data s')) = mset (all_paths (data ?s1)) + mset (map created_path fs2)"
      by blast
    from mset_scan_file[of "dir @ [item]" item ex e st s] obtain fs1 where fs1:
      "fs1 = [] \<or> fs1 = [dir @ [item]] \<and> js_endsWith item ''.pdf'' \<and> ''../'' @ relativePath (dir @ [item]) \<notin> ex"
      "mset (all_paths (data ?s1)) = mset (all_paths (data s)) + mset (map created_path fs1)"
      by blast
    have "subseq fs1 (if js_endsWith item ''.pdf'' then [dir @ [item]] else [])"
      using fs1(1) by auto
    then have "subseq (fs1 @ fs2) (pdf_entries dir ((item, n) # rest))"
      using fs2(1) File by (simp add: list_emb_append_mono)
    moreover have "\<forall>f\<in>set (fs1 @ fs2). ''../'' @ relativePath f \<notin> ex"
      using fs1(1) fs2(2) by auto
    moreover have "mset (all_paths (data s')) =
        mset (all_paths (data s)) + mset (map created_path (fs1 @ fs2))"
      using fs1(2) fs2(3) by simp
    ultimately show ?thesis by blast
  next
    case StatFails
    with "6.prems" show ?thesis by simp
  next
    case (Dir xs)
    from "6.prems" Dir obtain s1 where s1: "scanDirectory e ex (dir @ [item]) n s = Done s1"
      and run: "scan_items e ex dir rest s1 = Done s'"
      by (auto split: outcome.splits)
    from "6.IH"(2)[OF Dir s1] obtain fs1 where fs1: "subseq fs1 (pdf_files (dir @ [item]) n)"
      "\<forall>f\<in>set fs1. ''../'' @ relativePath f \<notin> ex"
      "mset (all_paths (data s1)) = mset (all_paths (data s)) + mset (map created_path fs1)"
      by blast
    from "6.IH"(3)[OF Dir s1 run] obtain fs2 where fs2: "subseq fs2 (pdf_entries dir rest)"
      "\<forall>f\<in>set fs2. ''../'' @ relativePath f \<notin> ex"
      "mset (all_paths (data s')) = mset (all_paths (data s1)) + mset (map created_path fs2)"
      by blast
    have "subseq (fs1 @ fs2) (pdf_entries dir ((item, n) # rest))"
      using fs1(1) fs2(1) Dir by (simp add: list_emb_append_mono)
    moreover have "\<forall>f\<in>set (fs1 @ fs2). ''../'' @ relativePath f \<notin> ex"
      using fs1(2) fs2(2) by auto
    moreover have "mset (all_paths (data s')) =
        mset (all_paths (data s)) + mset (map created_path (fs1 @ fs2))"
      using fs1(3) fs2(3) by simp
    ultimately show ?thesis by blast
  next
    case ReaddirFails
    with "6.prems" show ?thesis by simp
  qed
qed simp_all

lemma subseq_subset: "subseq xs ys \<Longrightarrow> set xs \<subseteq> set ys"
  by (induction rule: list_emb.induct) auto

lemma subseq_distinct: "subseq xs ys \<Longrightarrow> distinct ys \<Longrightarrow> distinct xs"
  by (induction rule: list_emb.induct) (auto dest: subseq_subset)

lemma split_from_none:
  "sep \<noteq> [] \<Longrightarrow> \<not> js_includes t sep \<Longrightarrow> split_from sep cur t = [cur @ t]"
  by (induction t arbitrary: cur) auto

lemma slashes_id: "CHR 0x5C \<notin> set s \<Longrightarrow> slashes s = s"
  unfolding slashes_def by (induction s) auto

lemma js_join_Cons: "js_join sep (x # xs) = x @ (if xs = [] then [] else sep @ js_join sep xs)"
  by (cases xs) simp_all

lemma set_js_join: "c \<in> set (js_join sep xs) \<Longrightarrow> c \<in> set sep \<or> (\<exists>x\<in>set xs. c \<in> set x)"
  by (induction sep xs rule: js_join.induct) auto

lemma relativePath_plain:
  "\<forall>x\<in>set segs. CHR 0x5C \<notin> set x \<Longrightarrow> relativePath segs = js_join ''/'' segs"
  unfolding relativePath_def by (rule slashes_id) (auto dest: set_js_join)

lemma takeWhile_segment:
  "CHR ''/'' \<notin> set x \<Longrightarrow> takeWhile (\<lambda>c. c \<noteq> CHR ''/'') (x @ (if xs = [] then [] else ''/'' @ r)) = x"
  by (induction x) auto

lemma dropWhile_segment:
  "CHR ''/'' \<notin> set x \<Longrightarrow> dropWhile (\<lambda>c. c \<noteq> CHR ''/'') (x @ (if xs = [] then [] else ''/'' @ r)) =
     (if xs = [] then [] else ''/'' @ r)"
  by (induction x) auto

lemma js_join_inj:
  "xs \<noteq> [] \<Longrightarrow> ys \<noteq> [] \<Longrightarrow> \<forall>x\<in>set xs. CHR ''/'' \<notin> set x \<Longrightarrow> \<forall>y\<in>set ys. CHR ''/'' \<notin> set y \<Longrightarrow>
   js_join ''/'' xs = js_join ''/'' ys \<Longrightarrow> xs = ys"
proof (induction xs arbitrary: ys)
  case Nil
  then show ?case by simp
next
  case (Cons x xs)
  then obtain y ys' where ys: "ys = y # ys'" by (cases ys) auto
  let ?l = "x @ (if xs = [] then [] else ''/'' @ js_join ''/'' xs)"
  let ?r = "y @ (if ys' = [] then [] else ''/'' @ js_join ''/'' ys')"
  have eq: "?l = ?r"
    using Cons.prems(5) unfolding ys js_join_Cons .
  have x: "CHR ''/'' \<notin> set x" and y: "CHR ''/'' \<notin> set y"
    using Cons.prems(3,4) ys by auto
  have "takeWhile (\<lambda>c. c \<noteq> CHR ''/'') ?l = takeWhile (\<lambda>c. c \<noteq> CHR ''/'') ?r"
    using eq by simp
  then have xy: "x = y"
    using takeWhile_segment[OF x, of xs] takeWhile_segment[OF y, of ys'] by simp
  have "dropWhile (\<lambda>c. c \<noteq> CHR ''/'') ?l = dropWhile (\<lambda>c. c \<noteq> CHR ''/'') ?r"
    using eq by simp
  then have rest: "(if xs = [] then [] else ''/'' @ js_join ''/'' xs) =
      (if ys' = [] then [] else ''/'' @ js_join ''/'' ys')"
    using dropWhile_segment[OF x, of xs] dropWhile_segment[OF y, of ys'] by simp
  show ?case
  proof (cases "xs = []")
    case True
    then have "ys' = []" using rest by (auto split: if_splits)
    then show ?thesis using True xy ys by simp
  next
    case False
    then have ne: "ys' \<noteq> []" using rest by (auto split: if_splits)
    then have "js_join ''/'' xs = js_join ''/'' ys'" using rest False by simp
    then have "xs = ys'"
      using Cons.IH[OF False ne] Cons.prems(3,4) ys by simp
    then show ?thesis using xy ys by simp
  qed
qed

lemma pdf_files_form:
  "wf_node n \<Longrightarrow> f \<in> set (pdf_files dir n) \<Longrightarrow>
     \<exists>r. f = dir @ r \<and> r \<noteq> [] \<and> (\<forall>x\<in>set r. wf_name x)"
  "wf_entries items \<Longrightarrow> f \<in> set (pdf_entries dir items) \<Longrightarrow>
     \<exists>i r. i \<in> fst ` set items \<and> f = dir @ i # r \<and> wf_name i \<and> (\<forall>x\<in>set r. wf_name x)"
proof (induction dir n and dir items rule: pdf_files_pdf_entries.induct)
  case (1 dir items)
  then show ?case by fastforce
next
  case (6 dir item n rest)
  from "6.prems"(1) have wi: "wf_name item" and wn: "wf_node n" and wr: "wf_entries rest"
    by simp_all
  from "6.prems"(2) consider
      (here) "f \<in> set (case n of File st \<Rightarrow> if js_endsWith item ''.pdf'' then [dir @ [item]] else []
                          | _ \<Rightarrow> pdf_files (dir @ [item]) n)"
    | (later) "f \<in> set (pdf_entries dir rest)"
    by auto
  then show ?case
  proof cases
    case here
    show ?thesis
    proof (cases n)
      case (File st)
      with here have "f = dir @ [item]" by (auto split: if_splits)
      then show ?thesis using wi by auto
    next
      case (Dir xs)
      with here have "f \<in> set (pdf_files (dir @ [item]) n)" by simp
      from "6.IH"(1)[OF Dir wn this] obtain r where
        "f = (dir @ [item]) @ r" "\<forall>x\<in>set r. wf_name x" by blast
      then show ?thesis using wi by auto
    next
      case StatFails
      with here show ?thesis by simp
    next
      case ReaddirFails
      with here show ?thesis by simp
    qed
  next
    case later
    from "6.IH"(4)[OF wr later] show ?thesis by auto
  qed
qed simp_all

lemma pdf_files_distinct:
  "wf_node n \<Longrightarrow> distinct (pdf_files dir n)"
  "wf_entries items \<Longrightarrow> distinct (map fst items) \<Longrightarrow> distinct (pdf_entries dir items)"
proof (induction dir n and dir items rule: pdf_files_pdf_entries.induct)
  case (6 dir item n rest)
  from "6.prems" have wi: "wf_name item" and wn: "wf_node n" and wr: "wf_entries rest"
    and fresh: "item \<notin> fst ` set rest" and dr: "distinct (map fst rest)"
    by simp_all
  let ?here = "case n of File st \<Rightarrow> if js_endsWith item ''.pdf'' then [dir @ [item]] else []
                 | _ \<Rightarrow> pdf_files (dir @ [item]) n"
  have here_form: "\<exists>r. f = dir @ item # r" if "f \<in> set ?here" for f
  proof (cases n)
    case (File st)
    with that show ?thesis by (auto split: if_splits)
  next
    case (Dir xs)
    with that pdf_files_form(1)[OF wn, of f "dir @ [item]"] show ?thesis by auto
  qed (use that in simp_all)
  have d1: "distinct ?here"
  proof (cases n)
    case (Dir xs)
    then show ?thesis using "6.IH"(1)[OF Dir wn] by simp
  qed simp_all
  have d2: "distinct (pdf_entries dir rest)"
    using "6.IH"(4)[OF wr dr] .
  have "set ?here \<inter> set (pdf_entries dir rest) = {}"
  proof (rule ccontr)
    assume "set ?here \<inter> set (pdf_entries dir rest) \<noteq> {}"
    then obtain f where f1: "f \<in> set ?here" and f2: "f \<in> set (pdf_entries dir rest)" by auto
    from here_form[OF f1] obtain r where r: "f = dir @ item # r" by blast
    from pdf_files_form(2)[OF wr f2] obtain i r' where "i \<in> fst ` set rest" "f = dir @ i # r'"
      by blast
    with r fresh show False by auto
  qed
  with d1 d2 show ?case by simp
qed simp_all

lemma notes_file_shape:
  assumes "wf_node t" "f \<in> set (pdf_files notesDir t)"
  shows "\<exists>r. f = ''data'' # ''notes'' # r \<and> r \<noteq> [] \<and> (\<forall>x\<in>set f. CHR ''/'' \<notin> set x \<and> CHR 0x5C \<notin> set x)"
proof -
  from pdf_files_form(1)[OF assms] obtain r where
    r: "f = notesDir @ r" "r \<noteq> []" "\<forall>x\<in>set r. wf_name x" by blast
  then show ?thesis by (auto simp: notesDir_def wf_name_def)
qed

lemma materialPath_inj:
  assumes "wf_node t" "f \<in> set (pdf_files notesDir t)" "g \<in> set (pdf_files notesDir t)"
    "''../'' @ relativePath f = ''../'' @ relativePath g"
  shows "f = g"
proof -
  from notes_file_shape[OF assms(1,2)] notes_file_shape[OF assms(1,3)]
  have f: "f \<noteq> []" "\<forall>x\<in>set f. CHR ''/'' \<notin> set x" "\<forall>x\<in>set f. CHR 0x5C \<notin> set x"
    and g: "g \<noteq> []" "\<forall>x\<in>set g. CHR ''/'' \<notin> set x" "\<forall>x\<in>set g. CHR 0x5C \<notin> set x"
    by auto
  have "js_join ''/'' f = js_join ''/'' g"
    using assms(4) relativePath_plain[OF f(3)] relativePath_plain[OF g(3)] by simp
  then show ?thesis using js_join_inj[OF f(1) g(1) f(2) g(2)] by simp
qed

lemma created_path_plain:
  assumes "wf_node t" "f \<in> set (pdf_files notesDir t)"
    "\<not> js_includes (js_join ''/'' (drop 2 f)) ''data/notes/''"
  shows "created_path f = ''../'' @ relativePath f"
proof -
  from notes_file_shape[OF assms(1,2)] obtain r where
    r: "f = ''data'' # ''notes'' # r" "r \<noteq> []" "\<forall>x\<in>set f. CHR 0x5C \<notin> set x" by blast
  have rel: "relativePath f = ''data/notes/'' @ js_join ''/'' r"
    using relativePath_plain[OF r(3)] r(1,2) by (simp add: js_join_Cons)
  have "split_from ''data/notes/'' [] (js_join ''/'' r) = [js_join ''/'' r]"
    using split_from_none[of "''data/notes/''" "js_join ''/'' r" "[]"] assms(3) r(1) by simp
  then have "js_split (relativePath f) ''data/notes/'' = [[], js_join ''/'' r]"
    unfolding rel by (simp add: js_split_def js_startsWith_def)
  then show ?thesis by (simp add: created_path_def item_text_def rel)
qed

lemma for_each_eq:
  "for_each f xs = (map (\<lambda>x. fst (f x)) xs, concat (map (\<lambda>x. snd (f x)) xs))"
  by (induction xs) (auto split: prod.splits)

lemma writes_simps [simp]:
  "writes [] = []"
  "writes (Log msg # l) = writes l"
  "writes (WriteFile c # l) = WriteFile c # writes l"
  by (simp_all add: writes_def)

lemma writes_append: "writes (a @ b) = writes a @ writes b"
  by (simp add: writes_def)

lemma writes_concat_logs:
  "(\<And>x. writes (g x) = []) \<Longrightarrow> writes (concat (map g xs)) = []"
  by (induction xs) (auto simp: writes_append)

lemma writes_updateMaterialMetadata: "writes (snd (updateMaterialMetadata e m)) = []"
  by (simp add: updateMaterialMetadata_def writes_def Let_def split: option.splits)

lemma writes_update_subject: "writes (snd (update_subject e s)) = []"
  by (simp add: update_subject_def for_each_eq writes_concat_logs writes_updateMaterialMetadata)

lemma writes_update_branch: "writes (snd (update_branch e b)) = []"
  by (simp add: update_branch_def for_each_eq writes_concat_logs writes_update_subject)

lemma writes_update_semester: "writes (snd (update_semester e s)) = []"
  by (simp add: update_semester_def for_each_eq writes_concat_logs writes_update_branch)

lemma writes_update_all: "writes (out (update_all e s)) = writes (out s)"
  by (simp add: update_all_def for_each_eq writes_append writes_concat_logs writes_update_semester)

lemma writes_scanForNewFiles: "writes (trace (scanForNewFiles e \<lparr>data = d, out = []\<rparr>)) = []"
  using writes_scan(1)[of e _ _ _ "\<lparr>data = d, out = []\<rparr>"]
  by (simp add: scanForNewFiles_def writes_def)

text \<open>
  C7: in every run of the metadata script the catalog file is written at most once; a
  run that is aborted has written nothing, and a run that ends has first finished the
  scan for new files and the update of every material, then written the catalog these
  have produced, its only write, and then printed the closing line.
\<close>

theorem catalog_written_once_at_the_end:
  "length (writes (trace (run_script e d))) \<le> 1 \<and>
   (case run_script e d of
      Aborted x l \<Rightarrow> writes l = []
    | Done s \<Rightarrow>
        (case scanForNewFiles e \<lparr>data = d, out = []\<rparr> of
           Aborted x l \<Rightarrow> False
         | Done s1 \<Rightarrow>
             out s = out (update_all e s1) @
                     [WriteFile (data (update_all e s1)), Log ''File metadata updated successfully!''] \<and>
             writes (out (update_all e s1)) = []))"
proof (cases "scanForNewFiles e \<lparr>data = d, out = []\<rparr>")
  case (Aborted x l)
  then have "writes l = []" using writes_scanForNewFiles[of e d] by simp
  then show ?thesis using Aborted by (simp add: run_script_def)
next
  case (Done s1)
  then have "writes (out s1) = []" using writes_scanForNewFiles[of e d] by simp
  then have w: "writes (out (update_all e s1)) = []" by (simp add: writes_update_all)
  show ?thesis
  proof (cases "write_fails e")
    case True
    then show ?thesis using Done w by (simp add: run_script_def Let_def)
  next
    case False
    then show ?thesis using Done w
      by (simp add: run_script_def Let_def console_log_def writes_append)
  qed
qed

text \<open>
  C10: updateMaterialMetadata changes at most the size and the upload date of the
  material it is given: title, description, path, type, download URL and keywords are
  those of the material, whether the file exists or not.
\<close>

theorem updateMaterialMetadata_frame:
  "title (fst (updateMaterialMetadata e m)) = title m \<and>
   description (fst (updateMaterialMetadata e m)) = description m \<and>
   path (fst (updateMaterialMetadata e m)) = path m \<and>
   type_m (fst (updateMaterialMetadata e m)) = type_m m \<and>
   downloadUrl (fst (updateMaterialMetadata e m)) = downloadUrl m \<and>
   keywords_m (fst (updateMaterialMetadata e m)) = keywords_m m"
  by (simp add: updateMaterialMetadata_def Let_def split: option.splits)

lemma path_updateMaterialMetadata: "path (fst (updateMaterialMetadata e m)) = path m"
  by (simp add: updateMaterialMetadata_def Let_def split: option.splits)

lemma materials_update_subject:
  "materials (fst (update_subject e s)) = map (\<lambda>m. fst (updateMaterialMetadata e m)) (materials s)"
  by (simp add: update_subject_def for_each_eq)

lemma branch_materials_update:
  "branch_materials (fst (update_branch e b)) =
     map (\<lambda>m. fst (updateMaterialMetadata e m)) (branch_materials b)"
  by (simp add: update_branch_def for_each_eq branch_materials_def map_concat
      materials_update_subject comp_def)

lemma semester_materials_update:
  "semester_materials (fst (update_semester e s)) =
     map (\<lambda>m. fst (updateMaterialMetadata e m)) (semester_materials s)"
  by (simp add: update_semester_def for_each_eq semester_materials_def map_concat
      branch_materials_update comp_def)

lemma all_materials_update_all:
  "all_materials (data (update_all e s)) =
     map (\<lambda>m. fst (updateMaterialMetadata e m)) (all_materials (data s))"
  by (simp add: update_all_def for_each_eq all_materials_alt map_concat
      semester_materials_update comp_def)

lemma all_paths_update_all: "all_paths (data (update_all e s)) = all_paths (data s)"
  by (simp add: all_paths_def all_materials_update_all path_updateMaterialMetadata comp_def)

lemma run_script_completes:
  assumes "listable (notes_tree e)" "\<not> write_fails e"
  shows "\<exists>s'. run_script e d = Done s'"
proof -
  from listable_scan(1)[OF assms(1)] obtain s1 where
    "scanForNewFiles e \<lparr>data = d, out = []\<rparr> = Done s1"
    unfolding scanForNewFiles_def by blast
  then show ?thesis using assms(2) by (simp add: run_script_def Let_def)
qed



lemma find_notes:
  "findSubjectByPath \<lparr>semesters = [\<lparr>semester_id = 3, branches = [\<lparr>branch_id = ''cse'', subjects =
     [\<lparr>subject_name = ''Notes'', materials = ms\<rparr>]\<rparr>]\<rparr>]\<rparr>
     ['''', ''srv'', ''site'', ''data'', ''notes'', ''semester-3'', ''cse'', ''data'', ''notes'', f] = Some (0, 0, 0)"
  by (simp add: findSubjectByPath_def js_startsWith_def item_text_def js_split_def parseInt_def
      isSpace_def digitValue_def subject_matches_def toLowerCase_def toLowerChar_def Let_def)




lemma writes_run_script:
  "writes (trace (run_script e d)) =
     (case scanForNewFiles e \<lparr>data = d, out = []\<rparr> of
        Aborted x l \<Rightarrow> []
      | Done s1 \<Rightarrow> if write_fails e then [] else [WriteFile (data (update_all e s1))])"
proof (cases "scanForNewFiles e \<lparr>data = d, out = []\<rparr>")
  case (Aborted x l)
  then show ?thesis using writes_scanForNewFiles[of e d] by (simp add: run_script_def)
next
  case (Done s1)
  then have "writes (out s1) = []" using writes_scanForNewFiles[of e d] by simp
  then have "writes (out (update_all e s1)) = []" by (simp add: writes_update_all)
  then show ?thesis using Done
    by (simp add: run_script_def Let_def console_log_def writes_append)
qed

lemma mem_writes: "WriteFile c \<in> set l \<longleftrightarrow> WriteFile c \<in> set (writes l)"
  by (simp add: writes_def)

lemma scan_paths_distinct:
  assumes d: "distinct (all_paths d)" and wf: "wf_node (notes_tree e)"
    and nn: "no_nested_notes (notes_tree e)"
    and run: "scanForNewFiles e \<lparr>data = d, out = l\<rparr> = Done s1"
  shows "distinct (all_paths (data s1)) \<and>
         (\<exists>new. mset (all_paths (data s1)) = mset (all_paths d) + mset new \<and>
                set new \<inter> set (all_paths d) = {})"
proof -
  let ?t = "notes_tree e"
  let ?mp = "\<lambda>f. ''../'' @ relativePath f"
  from mset_scan(1)[OF run[unfolded scanForNewFiles_def]] obtain fs where
    fs: "subseq fs (pdf_files notesDir ?t)" "\<forall>f\<in>set fs. ?mp f \<notin> set (all_paths d)"
      "mset (all_paths (data s1)) = mset (all_paths d) + mset (map created_path fs)"
    by auto
  have sub: "set fs \<subseteq> set (pdf_files notesDir ?t)"
    using fs(1) by (rule subseq_subset)
  have cp: "created_path f = ?mp f" if "f \<in> set fs" for f
  proof -
    from that sub have f: "f \<in> set (pdf_files notesDir ?t)" by auto
    with nn have "\<not> js_includes (js_join ''/'' (drop 2 f)) ''data/notes/''"
      by (simp add: no_nested_notes_def list_all_iff)
    from created_path_plain[OF wf f this] show ?thesis .
  qed
  then have new: "map created_path fs = map ?mp fs" by simp
  have "distinct fs"
    using fs(1) pdf_files_distinct(1)[OF wf] by (rule subseq_distinct)
  moreover have "inj_on ?mp (set fs)"
    using sub by (intro inj_onI materialPath_inj[OF wf]) auto
  ultimately have dn: "distinct (map ?mp fs)" by (simp add: distinct_map)
  have disj: "set (map ?mp fs) \<inter> set (all_paths d) = {}"
    using fs(2) by auto
  have "distinct (all_paths d @ map ?mp fs)"
    using d dn disj by auto
  moreover have "mset (all_paths (data s1)) = mset (all_paths d @ map ?mp fs)"
    using fs(3) new by simp
  ultimately have "distinct (all_paths (data s1))"
    using mset_eq_imp_distinct_iff by blast
  with fs(3) new disj show ?thesis by metis
qed

lemma run_script_Done_write: "run_script e d = Done s \<Longrightarrow> WriteFile (data s) \<in> set (out s)"
  by (auto simp: run_script_def Let_def console_log_def split: outcome.splits if_splits)

text \<open>
  Where the guard of the scanner holds: when the paths of the starting catalog differ
  from each other, the names of the tree are those of a file system and no PDF file has
  \<open>data/notes/\<close> inside its path below the notes directory, the catalog a run writes
  back has no path twice, and its paths are those of the starting catalog and new ones,
  none of which the starting catalog had.
\<close>

theorem scanner_keeps_paths_distinct:
  assumes "distinct (all_paths d)" and "wf_node (notes_tree e)"
    and "no_nested_notes (notes_tree e)"
    and "WriteFile c \<in> set (trace (run_script e d))"
  shows "distinct (all_paths c) \<and>
         (\<exists>s1 new. scanForNewFiles e \<lparr>data = d, out = []\<rparr> = Done s1 \<and>
            all_paths c = all_paths (data s1) \<and>
            mset (all_paths (data s1)) = mset (all_paths d) + mset new \<and>
            set new \<inter> set (all_paths d) = {})"
proof -
  from assms(4) have w: "WriteFile c \<in> set (writes (trace (run_script e d)))"
    by (simp add: mem_writes[symmetric])
  obtain s1 where s1: "scanForNewFiles e \<lparr>data = d, out = []\<rparr> = Done s1"
    and c: "c = data (update_all e s1)"
  proof (cases "scanForNewFiles e \<lparr>data = d, out = []\<rparr>")
    case (Done s1)
    with w have "c = data (update_all e s1)"
      by (simp add: writes_run_script split: if_splits)
    with Done that show ?thesis by blast
  next
    case (Aborted x l)
    with w show ?thesis by (simp add: writes_run_script)
  qed
  from scan_paths_distinct[OF assms(1-3) s1] c s1 show ?thesis
    by (auto simp: all_paths_update_all)
qed

theorem scanner_keeps_paths_distinct_witness:
  "distinct (all_paths cat_w) \<and> wf_node (notes_tree env_w) \<and> no_nested_notes (notes_tree env_w) \<and>
   (\<exists>c. WriteFile c \<in> set (trace (run_script env_w cat_w)) \<and> distinct (all_paths c))"
proof -
  have h1: "distinct (all_paths cat_w)"
    by (simp add: all_paths_def all_materials_def cat_w_def intro_w_def gone_w_def)
  have h2: "wf_node (notes_tree env_w)"
    by (simp add: env_w_def tree_w_def wf_name_def)
  have h3: "no_nested_notes (notes_tree env_w)"
    by (simp add: no_nested_notes_def env_w_def tree_w_def notesDir_def js_endsWith_def
        js_startsWith_def)
  have "listable (notes_tree env_w)" "\<not> write_fails env_w"
    by (simp_all add: env_w_def tree_w_def)
  from run_script_completes[OF this] obtain s where s: "run_script env_w cat_w = Done s" by blast
  then have w: "WriteFile (data s) \<in> set (trace (run_script env_w cat_w))"
    using run_script_Done_write[OF s] by simp
  from scanner_keeps_paths_distinct[OF h1 h2 h3 w] have "distinct (all_paths (data s))" by blast
  with h1 h2 h3 w show ?thesis by blast
qed

text \<open>
  The scanner removes nothing: a catalog that holds a path twice is written back as it
  is.
\<close>

theorem stale_duplicates_are_written_back:
  "WriteFile cat_dup \<in> set (trace (run_script env_empty cat_dup)) \<and> \<not> distinct (all_paths cat_dup)"
proof -
  have "scanForNewFiles env_empty \<lparr>data = cat_dup, out = []\<rparr> = Done \<lparr>data = cat_dup, out = []\<rparr>"
    by (simp add: scanForNewFiles_def env_empty_def)
  moreover have "data (update_all env_empty \<lparr>data = cat_dup, out = []\<rparr>) = cat_dup"
    by (simp add: update_all_def update_semester_def update_branch_def update_subject_def
        updateMaterialMetadata_def env_empty_def cat_dup_def Let_def)
  ultimately have "WriteFile cat_dup \<in> set (trace (run_script env_empty cat_dup))"
    by (simp add: run_script_def Let_def console_log_def env_empty_def)
  moreover have "\<not> distinct (all_paths cat_dup)"
    by (simp add: all_paths_def all_materials_def cat_dup_def)
  ultimately show ?thesis by simp
qed



lemma created_path_nested: "created_path [''data'', ''notes'', ''semester-3'', ''cse'', ''data'', ''notes'', ''a.pdf''] = ''../data/notes/semester-3/cse/''"
   "created_path [''data'', ''notes'', ''semester-3'', ''cse'', ''data'', ''notes'', ''b.pdf''] = ''../data/notes/semester-3/cse/''"
  by (simp_all add: created_path_def relativePath_def slashes_def js_split_def js_startsWith_def item_text_def)

lemma scan_nested_notes:
  "\<exists>s. scanForNewFiles env_nested \<lparr>data = cat_notes, out = []\<rparr> = Done s \<and>
       all_paths (data s) = [''../data/notes/semester-3/cse/'', ''../data/notes/semester-3/cse/'']"
  by (simp add: scanForNewFiles_def env_nested_def tree_nested_def cat_notes_def notesDir_def
      all_paths_def all_materials_def scan_file_def js_endsWith_def relativePath_def slashes_def
      find_notes push_material_def console_log_def Let_def path_createMaterialFromFile created_path_nested)

lemma run_script_of_scan:
  assumes "scanForNewFiles e \<lparr>data = d, out = []\<rparr> = Done s1" "\<not> write_fails e"
  shows "WriteFile (data (update_all e s1)) \<in> set (trace (run_script e d))"
  using assms by (simp add: run_script_def Let_def console_log_def)

text \<open>
  C1: the scanner is to write back no path twice and to insert no path the catalog has.
  It does not: in a notes directory that has a directory \<open>data/notes\<close> inside it, on a
  catalog without any material, the guard tests the path \<open>../\<close> and the relative path of
  each file, but the path stored is cut after the first \<open>data/notes/\<close> of it and is the
  same for both files of the directory; both are added, and the catalog the run writes
  back holds that path twice.
\<close>

theorem nested_notes_directory_gives_one_path_twice:
  "all_paths cat_notes = [] \<and> wf_node (notes_tree env_nested) \<and>
   ''../'' @ relativePath [''data'', ''notes'', ''semester-3'', ''cse'', ''data'', ''notes'', ''a.pdf''] =
     ''../data/notes/semester-3/cse/data/notes/a.pdf'' \<and>
   path (createMaterialFromFile
           [''data'', ''notes'', ''semester-3'', ''cse'', ''data'', ''notes'', ''a.pdf''] st_w) =
     ''../data/notes/semester-3/cse/'' \<and>
   path (createMaterialFromFile
           [''data'', ''notes'', ''semester-3'', ''cse'', ''data'', ''notes'', ''b.pdf''] st_w) =
     ''../data/notes/semester-3/cse/'' \<and>
   (\<exists>s. scanForNewFiles env_nested \<lparr>data = cat_notes, out = []\<rparr> = Done s \<and>
        all_paths (data s) = [''../data/notes/semester-3/cse/'', ''../data/notes/semester-3/cse/'']) \<and>
   (\<exists>c. WriteFile c \<in> set (trace (run_script env_nested cat_notes)) \<and>
        all_paths c = [''../data/notes/semester-3/cse/'', ''../data/notes/semester-3/cse/''])"
proof -
  have a: "all_paths cat_notes = []"
    by (simp add: all_paths_def all_materials_def cat_notes_def)
  have w: "wf_node (notes_tree env_nested)"
    by (simp add: env_nested_def tree_nested_def wf_name_def)
  have g: "''../'' @ relativePath [''data'', ''notes'', ''semester-3'', ''cse'', ''data'', ''notes'', ''a.pdf''] =
     ''../data/notes/semester-3/cse/data/notes/a.pdf''"
    by (simp add: relativePath_def slashes_def)
  obtain s where s: "scanForNewFiles env_nested \<lparr>data = cat_notes, out = []\<rparr> = Done s"
    "all_paths (data s) = [''../data/notes/semester-3/cse/'', ''../data/notes/semester-3/cse/'']"
    using scan_nested_notes by blast
  have "\<not> write_fails env_nested" by (simp add: env_nested_def)
  from run_script_of_scan[OF s(1) this] s(2)
  have "\<exists>c. WriteFile c \<in> set (trace (run_script env_nested cat_notes)) \<and>
        all_paths c = [''../data/notes/semester-3/cse/'', ''../data/notes/semester-3/cse/'']"
    by (auto simp: all_paths_update_all)
  with a w g s show ?thesis
    by (auto simp: path_createMaterialFromFile created_path_nested)
qed

subsection \<open>The theme manager, the menu and the offline cache\<close>

lemma print_fields [simp]:
  "theme (print lv msg err s) = theme s" "autoMode (print lv msg err s) = autoMode s"
  "autoCheckInterval (print lv msg err s) = autoCheckInterval s"
  "ls_items (print lv msg err b) = ls_items b" "ls_mode (print lv msg err b) = ls_mode b"
  "intervals (print lv msg err b) = intervals b" "clock_hour (print lv msg err b) = clock_hour b"
  "elements (print lv msg err b) = elements b" "data_theme (print lv msg err b) = data_theme b"
  by (simp_all add: print_def)

lemma setTimeout_fields [simp]:
  "theme (setTimeout a n s) = theme s" "autoMode (setTimeout a n s) = autoMode s"
  "autoCheckInterval (setTimeout a n s) = autoCheckInterval s"
  "ls_items (setTimeout a n b) = ls_items b" "ls_mode (setTimeout a n b) = ls_mode b"
  "intervals (setTimeout a n b) = intervals b" "clock_hour (setTimeout a n b) = clock_hour b"
  "elements (setTimeout a n b) = elements b" "data_theme (setTimeout a n b) = data_theme b"
  by (simp_all add: setTimeout_def)

lemma setStoredTheme_fields [simp]:
  "theme (setStoredTheme t s) = theme s" "autoMode (setStoredTheme t s) = autoMode s"
  "autoCheckInterval (setStoredTheme t s) = autoCheckInterval s"
  "ls_mode (setStoredTheme t b) = ls_mode b"
  "intervals (setStoredTheme t b) = intervals b" "clock_hour (setStoredTheme t b) = clock_hour b"
  "elements (setStoredTheme t b) = elements b" "data_theme (setStoredTheme t b) = data_theme b"
  by (simp_all add: setStoredTheme_def setItem_def split: ls_mode.splits)

lemma setStoredTheme_other_key:
  "k \<noteq> ''theme'' \<Longrightarrow> ls_items (setStoredTheme t b) k = ls_items b k"
  by (simp add: setStoredTheme_def setItem_def split: ls_mode.splits)

lemma setAutoMode_fields [simp]:
  "theme (setAutoMode v s) = theme s" "autoMode (setAutoMode v s) = autoMode s"
  "autoCheckInterval (setAutoMode v s) = autoCheckInterval s"
  "ls_mode (setAutoMode v b) = ls_mode b"
  "intervals (setAutoMode v b) = intervals b" "clock_hour (setAutoMode v b) = clock_hour b"
  "elements (setAutoMode v b) = elements b" "data_theme (setAutoMode v b) = data_theme b"
  by (simp_all add: setAutoMode_def setItem_def split: ls_mode.splits)

lemma updateToggleIcon_fields [simp]:
  "theme (updateToggleIcon s) = theme s" "autoMode (updateToggleIcon s) = autoMode s"
  "autoCheckInterval (updateToggleIcon s) = autoCheckInterval s"
  "ls_items (updateToggleIcon s) = ls_items s" "ls_mode (updateToggleIcon s) = ls_mode s"
  "intervals (updateToggleIcon s) = intervals s" "clock_hour (updateToggleIcon s) = clock_hour s"
  "elements (updateToggleIcon s) = elements s" "data_theme (updateToggleIcon s) = data_theme s"
  by (simp_all add: updateToggleIcon_def Let_def)

lemma applyTheme_fields [simp]:
  "theme (applyTheme t a s) = t" "autoMode (applyTheme t a s) = autoMode s"
  "autoCheckInterval (applyTheme t a s) = autoCheckInterval s"
  "ls_mode (applyTheme t a s) = ls_mode s"
  "intervals (applyTheme t a s) = intervals s" "clock_hour (applyTheme t a s) = clock_hour s"
  "elements (applyTheme t a s) = elements s" "data_theme (applyTheme t a s) = Some t"
  by (simp_all add: applyTheme_def Let_def)

lemma applyTheme_other_key:
  "k \<noteq> ''theme'' \<Longrightarrow> ls_items (applyTheme t a s) k = ls_items s k"
  by (simp add: applyTheme_def Let_def setStoredTheme_other_key)

lemma stopAutoThemeCheck_fields [simp]:
  "theme (stopAutoThemeCheck s) = theme s" "autoMode (stopAutoThemeCheck s) = autoMode s"
  "autoCheckInterval (stopAutoThemeCheck s) = None"
  "ls_items (stopAutoThemeCheck s) = ls_items s" "ls_mode (stopAutoThemeCheck s) = ls_mode s"
  "clock_hour (stopAutoThemeCheck s) = clock_hour s" "data_theme (stopAutoThemeCheck s) = data_theme s"
  by (simp_all add: stopAutoThemeCheck_def split: option.splits)

lemma startAutoThemeCheck_fields [simp]:
  "theme (startAutoThemeCheck s) = theme s" "autoMode (startAutoThemeCheck s) = autoMode s"
  "ls_items (startAutoThemeCheck s) = ls_items s" "ls_mode (startAutoThemeCheck s) = ls_mode s"
  "clock_hour (startAutoThemeCheck s) = clock_hour s"
  by (simp_all add: startAutoThemeCheck_def)

lemma showNotification_fields [simp]:
  "theme (showNotification m s) = theme s" "autoMode (showNotification m s) = autoMode s"
  "autoCheckInterval (showNotification m s) = autoCheckInterval s"
  "ls_items (showNotification m s) = ls_items s" "ls_mode (showNotification m s) = ls_mode s"
  "clock_hour (showNotification m s) = clock_hour s"
  by (simp_all add: showNotification_def)

lemma disable_auto_fields:
  "theme (disable_auto s) = theme s" "\<not> autoMode (disable_auto s)"
  "data_theme (disable_auto s) = data_theme s" "clock_hour (disable_auto s) = clock_hour s"
  "ls_mode (disable_auto s) = ls_mode s"
  by (simp_all add: disable_auto_def)

lemma toggleTheme_theme:
  "theme (toggleTheme s) = (if theme s = ''dark'' then ''light'' else ''dark'')"
  by (simp add: toggleTheme_def Let_def disable_auto_fields)

lemma nav_toggleTheme_theme:
  "theme (nav_toggleTheme s) = (if theme s = ''dark'' then ''light'' else ''dark'')"
  by (simp add: nav_toggleTheme_def nav_applyTheme_def nav_updateToggleIcon_def)

text \<open>
  C3, amended: from a starting state whose theme is dark or light, calling toggleTheme
  twice in succession leaves the theme equal to the theme held before the first call,
  for the theme manager of either file.
\<close>

theorem toggleTheme_twice:
  assumes "theme s = ''dark'' \<or> theme s = ''light''"
  shows "theme (toggleTheme (toggleTheme s)) = theme s \<and>
         theme (nav_toggleTheme (nav_toggleTheme s)) = theme s"
  using assms by (auto simp: toggleTheme_theme nav_toggleTheme_theme)

text \<open>
  C2: the theme the auto-theme computation selects is dark exactly when the hour \<open>h\<close> of
  the day has \<open>h \<ge> 18\<close> or \<open>h < 6\<close>, that is \<open>h\<close> in [18,24) or [0,6), and light for every
  other hour; enabling auto-mode applies that theme at once, and each periodic
  re-evaluation while auto-mode is enabled leaves the page with that theme.
\<close>

theorem auto_theme_by_the_hour:
  "(getAutoTheme s = ''dark'' \<longleftrightarrow> 18 \<le> clock_hour s \<or> clock_hour s < 6) \<and>
   (getAutoTheme s = ''light'' \<longleftrightarrow> 6 \<le> clock_hour s \<and> clock_hour s < 18) \<and>
   (clock_hour s < 24 \<longrightarrow>
      (getAutoTheme s = ''dark'' \<longleftrightarrow> clock_hour s \<in> {18..<24} \<union> {0..<6})) \<and>
   (\<not> autoMode s \<longrightarrow>
      autoMode (toggleAutoMode s) \<and> theme (toggleAutoMode s) = getAutoTheme s) \<and>
   (autoMode s \<longrightarrow> theme (auto_theme_check s) = getAutoTheme s)"
  by (auto simp: getAutoTheme_def toggleAutoMode_def auto_theme_check_def Let_def)

lemma setupToggleButton_theme [simp]: "theme (setupToggleButton s) = theme s"
  by (simp add: setupToggleButton_def)

lemma init_theme [simp]: "theme (init s) = theme s"
  by (simp add: init_def Let_def)

text \<open>
  The claim as it was stated, for every starting theme, fails for a theme that is neither
  dark nor light, which the constructor takes from local storage as it is: two toggles
  leave the page light.
\<close>

theorem foreign_theme_is_not_restored:
  "theme (new_ThemeManager b_blue) = ''blue'' \<and>
   theme (toggleTheme (toggleTheme (new_ThemeManager b_blue))) = ''light''"
proof -
  have "theme (new_ThemeManager b_blue) = ''blue''"
    by (simp add: new_ThemeManager_def getStoredTheme_def getAutoMode_def getItem_def b_blue_def
        browser.defs page.defs)
  then show ?thesis by (simp add: toggleTheme_theme)
qed

theorem toggleTheme_twice_witness:
  "(theme page_night = ''dark'' \<or> theme page_night = ''light'') \<and>
   theme (toggleTheme (toggleTheme page_night)) = theme page_night \<and>
   theme (nav_toggleTheme (nav_toggleTheme page_night)) = theme page_night"
proof -
  have h: "theme page_night = ''dark'' \<or> theme page_night = ''light''"
    by (simp add: page_night_def)
  from toggleTheme_twice[OF h] h show ?thesis by blast
qed

theorem auto_theme_by_the_hour_witness:
  "\<not> autoMode page_night \<and> clock_hour page_night = 20 \<and> clock_hour page_night < 24 \<and>
   clock_hour page_night \<in> {18..<24} \<union> {0..<6} \<and>
   theme (toggleAutoMode page_night) = ''dark'' \<and> autoMode (toggleAutoMode page_night) \<and>
   autoMode page_auto \<and> clock_hour page_auto = 9 \<and> theme (auto_theme_check page_auto) = ''light''"
proof -
  have n: "\<not> autoMode page_night" "clock_hour page_night = 20"
    by (simp_all add: page_night_def)
  have a: "autoMode page_auto" "clock_hour page_auto = 9"
    by (simp_all add: page_auto_def)
  have "getAutoTheme page_night = ''dark''" "getAutoTheme page_auto = ''light''"
    using auto_theme_by_the_hour[of page_night] auto_theme_by_the_hour[of page_auto] n a by simp_all
  then show ?thesis
    using auto_theme_by_the_hour[of page_night] auto_theme_by_the_hour[of page_auto] n a by simp
qed

lemma disable_auto_eq:
  "autoMode s \<Longrightarrow> disable_auto s = stopAutoThemeCheck (setAutoMode False (s\<lparr>autoMode := False\<rparr>))"
  by (simp add: disable_auto_def)

lemma intervals_stop:
  "autoCheckInterval s = Some h \<Longrightarrow> h \<notin> set (intervals (stopAutoThemeCheck s))"
  by (simp add: stopAutoThemeCheck_def)

text \<open>
  C4, amended: in every state in which auto-mode is enabled, toggleTheme first disables
  auto-mode and then flips the theme: before the flip the theme is still the old one, the
  autoMode flag is false and the periodic check is stopped, its interval cleared; the
  stored value becomes false when local storage accepts the write, and when it refuses
  it the refusal is logged and the stored values stay. After the call the flag is false,
  no check is scheduled, and a late run of the check changes nothing.
\<close>

theorem manual_toggle_disables_auto_mode:
  assumes "autoMode s"
  shows "toggleTheme s =
           applyTheme (if theme s = ''dark'' then ''light'' else ''dark'') True (disable_auto s) \<and>
         theme (disable_auto s) = theme s \<and> data_theme (disable_auto s) = data_theme s \<and>
         \<not> autoMode (disable_auto s) \<and> autoCheckInterval (disable_auto s) = None \<and>
         (\<forall>h. autoCheckInterval s = Some h \<longrightarrow> h \<notin> set (intervals (disable_auto s))) \<and>
         (ls_mode s = Working \<longrightarrow> ls_items (disable_auto s) ''themeAutoMode'' = Some ''false'') \<and>
         (ls_mode s \<noteq> Working \<longrightarrow>
            ls_items (disable_auto s) = ls_items s \<and>
            (\<exists>e. console (disable_auto s) =
                   console s @ [Line ConsoleWarn ''localStorage not available:'' (Some e)])) \<and>
         \<not> autoMode (toggleTheme s) \<and> autoCheckInterval (toggleTheme s) = None \<and>
         (ls_mode s = Working \<longrightarrow> ls_items (toggleTheme s) ''themeAutoMode'' = Some ''false'') \<and>
         auto_theme_check (toggleTheme s) = toggleTheme s"
proof -
  have t: "toggleTheme s =
      applyTheme (if theme s = ''dark'' then ''light'' else ''dark'') True (disable_auto s)"
    by (simp add: toggleTheme_def Let_def disable_auto_fields)
  have iv: "\<forall>h. autoCheckInterval s = Some h \<longrightarrow> h \<notin> set (intervals (disable_auto s))"
  proof (intro allI impI)
    fix h assume h: "autoCheckInterval s = Some h"
    then have "autoCheckInterval (setAutoMode False (s\<lparr>autoMode := False\<rparr>)) = Some h" by simp
    from intervals_stop[OF this] show "h \<notin> set (intervals (disable_auto s))"
      using assms by (simp add: disable_auto_eq)
  qed
  have w: "ls_items (disable_auto s) ''themeAutoMode'' = Some ''false''" if "ls_mode s = Working"
    using assms that by (simp add: disable_auto_eq setAutoMode_def setItem_def)
  have f: "ls_items (disable_auto s) = ls_items s \<and>
      (\<exists>e. console (disable_auto s) =
             console s @ [Line ConsoleWarn ''localStorage not available:'' (Some e)])"
    if "ls_mode s \<noteq> Working"
    using assms that
    by (cases "ls_mode s")
       (simp_all add: disable_auto_eq setAutoMode_def setItem_def print_def stopAutoThemeCheck_def
          split: option.splits)
  have a: "\<not> autoMode (toggleTheme s)" "autoCheckInterval (toggleTheme s) = None"
    using assms by (simp_all add: t disable_auto_eq)
  have w': "ls_items (toggleTheme s) ''themeAutoMode'' = Some ''false''" if "ls_mode s = Working"
    using w[OF that] by (simp add: t applyTheme_other_key)
  have c: "auto_theme_check (toggleTheme s) = toggleTheme s"
    using a(1) by (simp add: auto_theme_check_def)
  from t iv w f a w' c show ?thesis
    using assms by (simp add: disable_auto_fields disable_auto_eq)
qed

theorem manual_toggle_disables_auto_mode_witness:
  "autoMode page_auto \<and> ls_mode page_auto = Working \<and>
   autoCheckInterval page_auto = Some (Handle 1) \<and>
   Handle 1 \<notin> set (intervals (disable_auto page_auto)) \<and>
   \<not> autoMode (toggleTheme page_auto) \<and>
   autoCheckInterval (toggleTheme page_auto) = None \<and>
   ls_items (toggleTheme page_auto) ''themeAutoMode'' = Some ''false'' \<and>
   auto_theme_check (toggleTheme page_auto) = toggleTheme page_auto \<and>
   autoMode page_full \<and> ls_mode page_full \<noteq> Working \<and>
   ls_items (disable_auto page_full) = ls_items page_full \<and>
   \<not> autoMode (toggleTheme page_full)"
proof -
  have h: "autoMode page_auto" and w: "ls_mode page_auto = Working"
    and i: "autoCheckInterval page_auto = Some (Handle 1)"
    by (simp_all add: page_auto_def)
  have h': "autoMode page_full" and w': "ls_mode page_full \<noteq> Working"
    by (simp_all add: page_full_def page_auto_def)
  from manual_toggle_disables_auto_mode[OF h] manual_toggle_disables_auto_mode[OF h'] h w i h' w'
  show ?thesis by blast
qed

text \<open>
  The claim as it was stated fails where local storage refuses the write: the stored
  value stays true, and the next page load reads auto mode as enabled.
\<close>

theorem refused_write_keeps_stored_auto_mode:
  "autoMode page_full \<and> ls_items (toggleTheme page_full) ''themeAutoMode'' = Some ''true'' \<and>
   fst (getAutoMode (toggleTheme page_full))"
proof -
  have a: "autoMode page_full" by (simp add: page_full_def page_auto_def)
  have "ls_items (disable_auto page_full) ''themeAutoMode'' = Some ''true''"
    by (simp add: disable_auto_eq[OF a] setAutoMode_def setItem_def)
       (simp add: page_full_def page_auto_def)
  then have i: "ls_items (toggleTheme page_full) ''themeAutoMode'' = Some ''true''"
    by (simp add: toggleTheme_def Let_def applyTheme_other_key)
  have "ls_mode (toggleTheme page_full) = Full"
    by (simp add: toggleTheme_def Let_def disable_auto_fields) (simp add: page_full_def)
  with i have "fst (getAutoMode (toggleTheme page_full))"
    by (simp add: getAutoMode_def getItem_def)
  with a i show ?thesis by simp
qed

text \<open>
  What the accessors that log do on a failure: when every access to local storage
  throws, getStoredTheme returns null after a warning and loadOfflineData null after an
  error line; when writes throw, setStoredTheme and setAutoMode return after a warning and
  saveOfflineData returns false after an error line; when the selector query throws,
  navUtils.querySelector returns null after an error line; and when a required menu
  element is absent the mobile menu is not initialized, adds no listener and no overlay,
  and prints the error line.
\<close>

theorem failures_are_caught:
  "(ls_mode b = Denied \<longrightarrow>
      getStoredTheme b = (None, print ConsoleWarn ''localStorage not available:'' (Some SecurityError) b) \<and>
      loadOfflineData js key b =
        (None, print ConsoleError ''Error loading offline data:'' (Some SecurityError) b)) \<and>
   (ls_mode b \<noteq> Working \<longrightarrow>
      (\<exists>e. setStoredTheme t b = print ConsoleWarn ''localStorage not available:'' (Some e) b \<and>
           setAutoMode v b = print ConsoleWarn ''localStorage not available:'' (Some e) b) \<and>
      (\<exists>e. saveOfflineData js key d b =
             (False, print ConsoleError ''Error saving offline data:'' (Some e) b))) \<and>
   (selector \<in> invalid b \<longrightarrow>
      navUtils_querySelector selector b =
        (False, print ConsoleError
                  (''Error querying selector '' @ [CHR 0x22] @ selector @ [CHR 0x22] @ '':'')
                  (Some SyntaxError) b)) \<and>
   (''.menu-button'' \<notin> elements b \<or> ''.nav-links'' \<notin> elements b \<or>
    ''.menu-button'' \<in> invalid b \<or> ''.nav-links'' \<in> invalid b \<longrightarrow>
      \<not> initialized (fst (new_MobileMenu b)) \<and>
      listeners (snd (new_MobileMenu b)) = listeners b \<and>
      elements (snd (new_MobileMenu b)) = elements b \<and>
      last (console (snd (new_MobileMenu b))) =
        Line ConsoleError ''Menu elements not found or already initialized'' None)"
proof -
  have 1: "getStoredTheme b = (None, print ConsoleWarn ''localStorage not available:'' (Some SecurityError) b) \<and>
      loadOfflineData js key b =
        (None, print ConsoleError ''Error loading offline data:'' (Some SecurityError) b)"
    if "ls_mode b = Denied"
    using that by (simp add: getStoredTheme_def loadOfflineData_def getItem_def)
  define se where "se = (if ls_mode b = Full then QuotaExceededError else SecurityError)"
  have "setStoredTheme t b = print ConsoleWarn ''localStorage not available:'' (Some se) b \<and>
        setAutoMode v b = print ConsoleWarn ''localStorage not available:'' (Some se) b"
    if "ls_mode b \<noteq> Working"
    using that
    by (cases "ls_mode b") (simp_all add: setStoredTheme_def setAutoMode_def setItem_def se_def)
  then have 2: "\<exists>e. setStoredTheme t b = print ConsoleWarn ''localStorage not available:'' (Some e) b \<and>
           setAutoMode v b = print ConsoleWarn ''localStorage not available:'' (Some e) b"
    if "ls_mode b \<noteq> Working"
    using that by blast
  have "saveOfflineData js key d b =
          (False, print ConsoleError ''Error saving offline data:''
                    (Some (case stringify js d of Thrown e \<Rightarrow> e | _ \<Rightarrow> se)) b)"
    if "ls_mode b \<noteq> Working"
    using that
    by (cases "ls_mode b"; cases "stringify js d")
       (simp_all add: saveOfflineData_def setItem_def se_def)
  then have 3: "\<exists>e. saveOfflineData js key d b =
             (False, print ConsoleError ''Error saving offline data:'' (Some e) b)"
    if "ls_mode b \<noteq> Working"
    using that by blast
  have 4: "navUtils_querySelector selector b =
        (False, print ConsoleError
                  (''Error querying selector '' @ [CHR 0x22] @ selector @ [CHR 0x22] @ '':'')
                  (Some SyntaxError) b)"
    if "selector \<in> invalid b"
    using that by (simp add: navUtils_querySelector_def)
  have 5: "\<not> initialized (fst (new_MobileMenu b)) \<and>
      listeners (snd (new_MobileMenu b)) = listeners b \<and>
      elements (snd (new_MobileMenu b)) = elements b \<and>
      last (console (snd (new_MobileMenu b))) =
        Line ConsoleError ''Menu elements not found or already initialized'' None"
    if "''.menu-button'' \<notin> elements b \<or> ''.nav-links'' \<notin> elements b \<or>
        ''.menu-button'' \<in> invalid b \<or> ''.nav-links'' \<in> invalid b"
    using that
    by (auto simp: new_MobileMenu_def navUtils_querySelector_def menu_init_def print_def
        split: prod.splits if_splits)
  from 1 2 3 4 5 show ?thesis by blast
qed

theorem failures_are_caught_witness:
  "ls_mode b_denied = Denied \<and> ls_mode b_denied \<noteq> Working \<and> ''div['' \<in> invalid b_denied \<and>
   ''.menu-button'' \<notin> elements b_denied \<and>
   fst (getStoredTheme b_denied) = None \<and>
   setStoredTheme ''dark'' b_denied =
     print ConsoleWarn ''localStorage not available:'' (Some SecurityError) b_denied \<and>
   fst (navUtils_querySelector ''div['' b_denied) = False \<and>
   \<not> initialized (fst (new_MobileMenu b_denied))"
proof -
  have h: "ls_mode b_denied = Denied" "ls_mode b_denied \<noteq> Working" "''div['' \<in> invalid b_denied"
    "''.menu-button'' \<notin> elements b_denied"
    by (simp_all add: b_denied_def)
  have s: "setStoredTheme ''dark'' b_denied =
     print ConsoleWarn ''localStorage not available:'' (Some SecurityError) b_denied"
    using h(1) by (simp add: setStoredTheme_def setItem_def)
  from failures_are_caught[of b_denied json_atoms "''tasks''" "''dark''" False JTrue "''div[''"] h s
  show ?thesis by simp
qed

text \<open>
  C8: every failure of local storage in the UI code is to be caught and logged. That of
  getAutoMode is caught and not logged: on a storage that refuses every access it returns
  false and leaves the console as it was, where getStoredTheme, setStoredTheme and
  setAutoMode each print their warning.
\<close>

theorem silent_getAutoMode:
  "ls_mode b_denied = Denied \<and>
   getItem ''themeAutoMode'' b_denied = Inl SecurityError \<and>
   getAutoMode b_denied = (False, b_denied) \<and>
   console (snd (getAutoMode b_denied)) = console b_denied \<and>
   console (snd (getStoredTheme b_denied)) =
     console b_denied @ [Line ConsoleWarn ''localStorage not available:'' (Some SecurityError)] \<and>
   console (setStoredTheme ''dark'' b_denied) =
     console b_denied @ [Line ConsoleWarn ''localStorage not available:'' (Some SecurityError)] \<and>
   console (setAutoMode False b_denied) =
     console b_denied @ [Line ConsoleWarn ''localStorage not available:'' (Some SecurityError)]"
proof -
  have d: "ls_mode b_denied = Denied" by (simp add: b_denied_def)
  then show ?thesis
    by (simp add: getAutoMode_def getStoredTheme_def setStoredTheme_def setAutoMode_def
        getItem_def setItem_def print_def)
qed

lemma save_true:
  assumes "saveOfflineData js key d b = (True, b')"
  shows "ls_mode b = Working \<and>
         b' = b\<lparr>ls_items := (ls_items b)(key \<mapsto> (case stringify js d of Text s \<Rightarrow> s | _ \<Rightarrow> ''undefined''))\<rparr>"
  using assms
  by (cases "ls_mode b"; cases "stringify js d")
     (auto simp: saveOfflineData_def setItem_def print_def)

text \<open>
  C9: for every key and every JSON-serializable value, if saveOfflineData returns true
  then loadOfflineData on the storage it leaves returns that value; and loadOfflineData
  returns null when the key is absent, when the stored text fails to parse and when the
  storage cannot be read.
\<close>

theorem offline_cache_round_trip:
  "(serializable js d \<and> saveOfflineData js key d b = (True, b') \<longrightarrow>
      loadOfflineData js key b' = (Some d, b')) \<and>
   (ls_mode b \<noteq> Denied \<and> ls_items b key = None \<longrightarrow> loadOfflineData js key b = (None, b)) \<and>
   (ls_mode b \<noteq> Denied \<and> ls_items b key = Some s \<and> parse js s = None \<longrightarrow>
      fst (loadOfflineData js key b) = None) \<and>
   (ls_mode b = Denied \<longrightarrow> fst (loadOfflineData js key b) = None)"
proof -
  have 1: "loadOfflineData js key b' = (Some d, b')"
    if "serializable js d" "saveOfflineData js key d b = (True, b')"
  proof -
    from that(1) obtain s where s: "stringify js d = Text s" "s \<noteq> []" "parse js s = Some d"
      by (auto simp: serializable_def split: stringified.splits)
    from save_true[OF that(2)] s(1) have "ls_mode b' = Working" "ls_items b' key = Some s"
      by simp_all
    then show ?thesis using s(2,3) by (simp add: loadOfflineData_def getItem_def)
  qed
  have 2: "loadOfflineData js key b = (None, b)" if "ls_mode b \<noteq> Denied" "ls_items b key = None"
    using that by (cases "ls_mode b") (simp_all add: loadOfflineData_def getItem_def)
  have 3: "fst (loadOfflineData js key b) = None"
    if "ls_mode b \<noteq> Denied" "ls_items b key = Some s" "parse js s = None"
    using that by (cases "ls_mode b") (simp_all add: loadOfflineData_def getItem_def)
  have 4: "fst (loadOfflineData js key b) = None" if "ls_mode b = Denied"
    using that by (simp add: loadOfflineData_def getItem_def)
  from 1 2 3 4 show ?thesis by blast
qed

theorem offline_cache_round_trip_witness:
  "serializable json_atoms JTrue \<and> saveOfflineData json_atoms ''tasks'' JTrue b_blue = (True, b_saved) \<and>
   loadOfflineData json_atoms ''tasks'' b_saved = (Some JTrue, b_saved) \<and>
   ls_mode b_blue \<noteq> Denied \<and> ls_items b_blue ''tasks'' = None \<and>
   loadOfflineData json_atoms ''tasks'' b_blue = (None, b_blue) \<and>
   ls_items b_blue ''theme'' = Some ''blue'' \<and> parse json_atoms ''blue'' = None \<and>
   fst (loadOfflineData json_atoms ''theme'' b_blue) = None \<and>
   ls_mode b_denied = Denied \<and> fst (loadOfflineData json_atoms ''theme'' b_denied) = None"
proof -
  have h1: "serializable json_atoms JTrue"
    by (simp add: serializable_def json_atoms_def)
  have h2: "saveOfflineData json_atoms ''tasks'' JTrue b_blue = (True, b_saved)"
    by (simp add: saveOfflineData_def setItem_def json_atoms_def b_saved_def b_blue_def)
  have h3: "ls_mode b_blue \<noteq> Denied" "ls_items b_blue ''tasks'' = None"
    "ls_items b_blue ''theme'' = Some ''blue''" "parse json_atoms ''blue'' = None"
    by (simp_all add: b_blue_def json_atoms_def)
  have h4: "ls_mode b_denied = Denied"
    by (simp add: b_denied_def)
  from offline_cache_round_trip[of json_atoms JTrue "''tasks''" b_blue b_saved]
    offline_cache_round_trip[of json_atoms JTrue "''theme''" b_blue b_saved "''blue''"]
    offline_cache_round_trip[of json_atoms JTrue "''theme''" b_denied b_saved "''blue''"]
    h1 h2 h3 h4
  show ?thesis by simp
qed

end
